theory Spec2Isabelle
  imports
    Complex_Main
    "HOL-Library.Word"
    "HOL-Library.Log_Nat"
    "HOL-Library.AList"
    "HOL-Library.Char_ord"
    "HOL-Library.List_Lexorder"
begin

unbundle bit_operations_syntax

section \<open>Block optimizer: shallow embedding of \<^verbatim>\<open>src/app/welcome/optimize.tsx\<close>\<close>

text \<open>
  The numbers of the catalog (incomes, sizes, capacities, costs, levels) and the sums the
  optimizer forms of them are modelled as unbounded integers, which is what the doubles of
  the source hold below \<open>2\<^sup>5\<^sup>3\<close>. A number that need not be an integer (a quotient, a
  product with one) is the rational a double holds: every floating-point operation of the
  source rounds its exact result to the nearest double, ties to even, with the exponent
  range taken unbounded (no overflow, no subnormal numbers). An optional JSON field is an \<open>option\<close>; a JavaScript object used as a
  dictionary is an association list in the iteration order of \<^verbatim>\<open>Object.entries\<close>; an
  insertion-ordered \<^verbatim>\<open>Map\<close> is an association list updated in place. The logger and the
  fields \<^verbatim>\<open>id\<close>, \<^verbatim>\<open>averageEfficiencyByType\<close> and \<^verbatim>\<open>debugInfo\<close>, which no decision of the
  optimizer reads, are left out.
\<close>

subsection \<open>JavaScript idioms\<close>

text \<open>\<^verbatim>\<open>x || 0\<close> on an optional number.\<close>

definition orZero :: "int option \<Rightarrow> int" where
  "orZero x = (case x of None \<Rightarrow> 0 | Some n \<Rightarrow> n)"

text \<open>Truthiness of an optional number (\<^verbatim>\<open>x ? a : b\<close>) and of an optional boolean (\<^verbatim>\<open>!!x\<close>).\<close>

definition truthyNum :: "int option \<Rightarrow> bool" where
  "truthyNum x = (case x of None \<Rightarrow> False | Some n \<Rightarrow> n \<noteq> 0)"

definition truthyBool :: "bool option \<Rightarrow> bool" where
  "truthyBool x = (case x of None \<Rightarrow> False | Some b \<Rightarrow> b)"

text \<open>\<^verbatim>\<open>xs[i] || 0\<close>: a read outside the array is \<^verbatim>\<open>undefined\<close> and becomes 0.\<close>

definition nthOr0 :: "int list \<Rightarrow> nat \<Rightarrow> int" where
  "nthOr0 xs i = (if i < length xs then xs ! i else 0)"

text \<open>\<^verbatim>\<open>Array.from(new Set(xs))\<close>: duplicates removed, first occurrences kept in order.\<close>

fun dedup :: "'a list \<Rightarrow> 'a list" where
  "dedup [] = []"
| "dedup (x # xs) = x # dedup (filter (\<lambda>y. y \<noteq> x) xs)"

text \<open>The position of a name in a list of distinct names.\<close>

fun indexOf :: "'a list \<Rightarrow> 'a \<Rightarrow> nat option" where
  "indexOf [] x = None"
| "indexOf (y # ys) x = (if y = x then Some 0 else map_option Suc (indexOf ys x))"

text \<open>
  The lookup \<^verbatim>\<open>index[name]\<close> in \<^verbatim>\<open>miscIndex\<close> or \<^verbatim>\<open>businessIndex\<close>, a plain object filled by
  \<^verbatim>\<open>index[names[i]] = i\<close>; \<open>None\<close> where \<^verbatim>\<open>typeof\<close> of the lookup is not
  \<^verbatim>\<open>"number"\<close>. The assignment under the key \<^verbatim>\<open>__proto__\<close> reaches the setter of the
  prototype, which ignores a number, and the lookup of that key yields the prototype
  object: the name \<^verbatim>\<open>__proto__\<close> never has an index. A name that is not in the list yields
  \<^verbatim>\<open>undefined\<close> or an inherited function.
\<close>

definition indexLookup :: "string list \<Rightarrow> string \<Rightarrow> nat option" where
  "indexLookup names x = (if x = ''__proto__'' then None else indexOf names x)"

text \<open>
  Rounding to the nearest double, ties to even: a double other than 0 with binary
  exponent \<open>e\<close> is an integer multiple of \<open>2\<^sup>e\<^sup>-\<^sup>5\<^sup>2\<close>.
\<close>

definition twoPower :: "int \<Rightarrow> rat" where
  "twoPower e = (if 0 \<le> e then 2 ^ nat e else 1 / 2 ^ nat (- e))"

text \<open>\<open>\<lfloor>log\<^sub>2 \<bar>q\<bar>\<rfloor>\<close> for \<open>q \<noteq> 0\<close>.\<close>

definition binaryExponent :: "rat \<Rightarrow> int" where
  "binaryExponent q =
     (if 1 \<le> \<bar>q\<bar> then bitlen \<lfloor>\<bar>q\<bar>\<rfloor> - 1 else - bitlen (\<lceil>1 / \<bar>q\<bar>\<rceil> - 1))"

definition roundHalfEven :: "rat \<Rightarrow> int" where
  "roundHalfEven x =
     (let f = \<lfloor>x\<rfloor>; r = x - of_int f
      in if r < 1 / 2 then f else if 1 / 2 < r then f + 1
         else if even f then f else f + 1)"

definition toDouble :: "rat \<Rightarrow> rat" where
  "toDouble q =
     (if q = 0 then 0
      else (let ulp = twoPower (binaryExponent q - 52)
            in of_int (roundHalfEven (q / ulp)) * ulp))"

text \<open>The operators \<^verbatim>\<open>+\<close>, \<^verbatim>\<open>-\<close>, \<^verbatim>\<open>*\<close> and \<^verbatim>\<open>/\<close> on doubles; every division of the
  source has a positive divisor.\<close>

definition jsAdd :: "rat \<Rightarrow> rat \<Rightarrow> rat" where
  "jsAdd x y = toDouble (x + y)"

definition jsSub :: "rat \<Rightarrow> rat \<Rightarrow> rat" where
  "jsSub x y = toDouble (x - y)"

definition jsMul :: "rat \<Rightarrow> rat \<Rightarrow> rat" where
  "jsMul x y = toDouble (x * y)"

definition jsDiv :: "rat \<Rightarrow> rat \<Rightarrow> rat" where
  "jsDiv x y = toDouble (x / y)"

text \<open>\<^verbatim>\<open>Math.round\<close> of a double: the nearest integer, halves go up.\<close>

definition jsRound :: "rat \<Rightarrow> int" where
  "jsRound x = \<lfloor>x + 1 / 2\<rfloor>"

text \<open>\<^verbatim>\<open>a / b < c\<close> for integers \<open>a\<close>, \<open>b\<close> and a double \<open>c\<close>: a division by zero gives
  \<^verbatim>\<open>Infinity\<close>, \<^verbatim>\<open>-Infinity\<close> or \<^verbatim>\<open>NaN\<close>, and only \<^verbatim>\<open>-Infinity\<close> is below a finite
  bound.\<close>

definition jsQuotientBelow :: "int \<Rightarrow> int \<Rightarrow> rat \<Rightarrow> bool" where
  "jsQuotientBelow a b c = (if b = 0 then a < 0 else jsDiv (of_int a) (of_int b) < c)"

text \<open>\<^verbatim>\<open>1 << i\<close> and \<^verbatim>\<open>a | b\<close> work on 32-bit signed integers; the shift count is taken
  modulo 32.\<close>

definition jsShiftLeftOne :: "nat \<Rightarrow> int" where
  "jsShiftLeftOne i = sint (push_bit (i mod 32) (1 :: 32 word))"

definition jsBitOr :: "int \<Rightarrow> int \<Rightarrow> int" where
  "jsBitOr a b = sint ((word_of_int a :: 32 word) OR word_of_int b)"

subsection \<open>Catalog and variants\<close>

record ResourceCost =
  money :: "int option"
  wood :: "int option"
  cement :: "int option"
  steel :: "int option"

definition emptyCost :: ResourceCost where
  "emptyCost = \<lparr>money = None, wood = None, cement = None, steel = None\<rparr>"

text \<open>\<^verbatim>\<open>Object.keys(c).length > 0\<close> for a cost object.\<close>

definition hasKeys :: "ResourceCost \<Rightarrow> bool" where
  "hasKeys c = (money c \<noteq> None \<or> wood c \<noteq> None \<or> cement c \<noteq> None \<or> steel c \<noteq> None)"

datatype StorageCapacity = StorageNumber int | StorageObject ResourceCost

datatype WorkerType = Employees | Residents

record BuildingUpgrade =
  up_level :: int
  up_income :: "int option"
  up_additionalIncome :: "int option"
  up_employees :: "int option"
  up_peopleCapacity :: "int option"
  up_storageCapacity :: "StorageCapacity option"
  up_capacity :: "StorageCapacity option"
  up_mandatory :: "bool option"
  up_cost :: "ResourceCost option"
  up_prefers :: "string list option"

text \<open>A building definition; the type parameter is how the definition holds its upgrades:
  the upgrades themselves in a catalog value, their addresses in the store of the last
  subsection.\<close>

record 'u BuildingDefinitionOf =
  def_baseIncome :: "int option"
  def_size :: "int option"
  def_employees :: "int option"
  def_peopleCapacity :: "int option"
  def_storageCapacity :: "StorageCapacity option"
  def_capacity :: "StorageCapacity option"
  def_mandatory :: "bool option"
  def_baseCost :: "ResourceCost option"
  def_prefers :: "string list option"
  def_upgrades :: "'u list option"

type_synonym BuildingDefinition = "BuildingUpgrade BuildingDefinitionOf"

type_synonym TypeGroup = "(string \<times> BuildingDefinition) list"

record BuildingDefinitions =
  buildingTypes :: "(string \<times> TypeGroup) list"

record Variant =
  v_type :: string
  v_name :: string
  v_level :: int
  v_size :: int
  v_income :: int
  v_capacity :: int
  v_storageCapacity :: StorageCapacity
  v_mandatory :: bool
  v_costs :: ResourceCost
  v_workerType :: "WorkerType option"
  v_prefers :: "string list option"

definition isStorageBuilding :: "Variant \<Rightarrow> bool" where
  "isStorageBuilding v =
     ((case v_storageCapacity v of StorageObject _ \<Rightarrow> True | StorageNumber _ \<Rightarrow> False)
      \<and> v_workerType v = None)"

text \<open>The values read from the definition before the level-1 variant is pushed.\<close>

definition baseIncomeOf :: "BuildingDefinition \<Rightarrow> int" where
  "baseIncomeOf d = orZero (def_baseIncome d)"

definition baseSizeOf :: "BuildingDefinition \<Rightarrow> int" where
  "baseSizeOf d = (case def_size d of None \<Rightarrow> 1 | Some s \<Rightarrow> if s = 0 then 1 else s)"

definition baseWorkersOf :: "BuildingDefinition \<Rightarrow> int" where
  "baseWorkersOf d =
     (case def_employees d of Some e \<Rightarrow> e
      | None \<Rightarrow> (case def_peopleCapacity d of Some p \<Rightarrow> p | None \<Rightarrow> 0))"

definition baseStorageOf :: "BuildingDefinition \<Rightarrow> StorageCapacity" where
  "baseStorageOf d =
     (case def_storageCapacity d of Some s \<Rightarrow> s
      | None \<Rightarrow> (case def_capacity d of Some c \<Rightarrow> c | None \<Rightarrow> StorageNumber 0))"

definition baseCostsOf :: "BuildingDefinition \<Rightarrow> ResourceCost" where
  "baseCostsOf d = (case def_baseCost d of None \<Rightarrow> emptyCost | Some c \<Rightarrow> c)"

definition baseWorkerTypeOf :: "BuildingDefinition \<Rightarrow> WorkerType option" where
  "baseWorkerTypeOf d =
     (if truthyNum (def_employees d) then Some Employees
      else if truthyNum (def_peopleCapacity d) then Some Residents else None)"

definition baseVariant :: "string \<Rightarrow> string \<Rightarrow> BuildingDefinition \<Rightarrow> Variant" where
  "baseVariant typeName buildingName d =
     \<lparr>v_type = typeName, v_name = buildingName, v_level = 1, v_size = baseSizeOf d,
      v_income = baseIncomeOf d, v_capacity = baseWorkersOf d,
      v_storageCapacity = baseStorageOf d, v_mandatory = truthyBool (def_mandatory d),
      v_costs = baseCostsOf d, v_workerType = baseWorkerTypeOf d,
      v_prefers = def_prefers d\<rparr>"

text \<open>One pass of the loop over the sorted upgrades: the income and the worker count are
  carried from level to level.\<close>

definition nextIncome :: "int \<Rightarrow> BuildingUpgrade \<Rightarrow> int" where
  "nextIncome accumulatedIncome up =
     (case up_income up of Some i \<Rightarrow> i
      | None \<Rightarrow> accumulatedIncome + orZero (up_additionalIncome up))"

definition nextWorkers :: "int \<Rightarrow> BuildingUpgrade \<Rightarrow> int" where
  "nextWorkers currentWorkers up =
     (let w1 = (case up_employees up of Some e \<Rightarrow> e | None \<Rightarrow> currentWorkers)
      in (case up_peopleCapacity up of Some p \<Rightarrow> p | None \<Rightarrow> w1))"

definition upgradeStorage :: "StorageCapacity \<Rightarrow> BuildingUpgrade \<Rightarrow> StorageCapacity" where
  "upgradeStorage baseStorage up =
     (let s1 = (case up_storageCapacity up of Some (StorageNumber n) \<Rightarrow> StorageNumber n
                | _ \<Rightarrow> baseStorage)
      in (case up_capacity up of Some (StorageNumber n) \<Rightarrow> StorageNumber n | _ \<Rightarrow> s1))"

definition upgradeCosts :: "ResourceCost \<Rightarrow> BuildingUpgrade \<Rightarrow> ResourceCost" where
  "upgradeCosts baseCosts up =
     (let upCosts = (case up_cost up of None \<Rightarrow> emptyCost | Some c \<Rightarrow> c)
      in if hasKeys upCosts then upCosts else baseCosts)"

definition upgradeWorkerType :: "BuildingDefinition \<Rightarrow> BuildingUpgrade \<Rightarrow> WorkerType option" where
  "upgradeWorkerType d up =
     (if truthyNum (up_employees up) then Some Employees
      else if truthyNum (up_peopleCapacity up) then Some Residents
      else baseWorkerTypeOf d)"

definition upgradeVariant ::
  "string \<Rightarrow> string \<Rightarrow> BuildingDefinition \<Rightarrow> int \<Rightarrow> int \<Rightarrow> BuildingUpgrade \<Rightarrow> Variant" where
  "upgradeVariant typeName buildingName d accumulatedIncome currentWorkers up =
     \<lparr>v_type = typeName, v_name = buildingName, v_level = up_level up, v_size = baseSizeOf d,
      v_income = accumulatedIncome, v_capacity = currentWorkers,
      v_storageCapacity = upgradeStorage (baseStorageOf d) up,
      v_mandatory = (truthyBool (up_mandatory up) \<or> truthyBool (def_mandatory d)),
      v_costs = upgradeCosts (baseCostsOf d) up,
      v_workerType = upgradeWorkerType d up,
      v_prefers = (case up_prefers up of Some p \<Rightarrow> Some p | None \<Rightarrow> def_prefers d)\<rparr>"

fun upgradeLoop ::
  "string \<Rightarrow> string \<Rightarrow> BuildingDefinition \<Rightarrow> int \<Rightarrow> int \<Rightarrow> BuildingUpgrade list \<Rightarrow> Variant list" where
  "upgradeLoop typeName buildingName d accumulatedIncome currentWorkers [] = []"
| "upgradeLoop typeName buildingName d accumulatedIncome currentWorkers (up # ups) =
     (let accumulatedIncome' = nextIncome accumulatedIncome up;
          currentWorkers' = nextWorkers currentWorkers up
      in upgradeVariant typeName buildingName d accumulatedIncome' currentWorkers' up
         # upgradeLoop typeName buildingName d accumulatedIncome' currentWorkers' ups)"

text \<open>\<^verbatim>\<open>upgrades.slice().sort((a, b) => a.level - b.level)\<close>: a stable sort by level.\<close>

definition sortedUpgrades :: "BuildingDefinition \<Rightarrow> BuildingUpgrade list" where
  "sortedUpgrades d =
     sort_key up_level (case def_upgrades d of None \<Rightarrow> [] | Some ups \<Rightarrow> ups)"

definition variantsOfBuilding :: "string \<Rightarrow> string \<Rightarrow> BuildingDefinition \<Rightarrow> Variant list" where
  "variantsOfBuilding typeName buildingName d =
     baseVariant typeName buildingName d
     # upgradeLoop typeName buildingName d (baseIncomeOf d) (baseWorkersOf d) (sortedUpgrades d)"

definition buildVariantsFromDefinitions :: "BuildingDefinitions \<Rightarrow> Variant list" where
  "buildVariantsFromDefinitions defs =
     concat (map (\<lambda>(typeName, typeGroup).
        concat (map (\<lambda>(buildingName, d). variantsOfBuilding typeName buildingName d) typeGroup))
       (buildingTypes defs))"

subsection \<open>Failures\<close>

text \<open>
  \<open>NoSolution\<close> is the \<^verbatim>\<open>null\<close> the optimizers return, \<open>InvalidArgument\<close> the error thrown
  for fewer than one block, \<open>TypeError\<close> the runtime exception of a property read on
  \<^verbatim>\<open>undefined\<close>. \<open>InvalidCatalog\<close> is the first error kind the specification names; no
  statement of the source produces it.
\<close>

datatype Failure = InvalidCatalog | InvalidArgument | NoSolution | TypeError

text \<open>A loop body that may throw: the first failure ends the loop.\<close>

fun foldE :: "('a \<Rightarrow> 's \<Rightarrow> Failure + 's) \<Rightarrow> 'a list \<Rightarrow> 's \<Rightarrow> Failure + 's" where
  "foldE f [] s = Inr s"
| "foldE f (x # xs) s = (case f x s of Inl e \<Rightarrow> Inl e | Inr s' \<Rightarrow> foldE f xs s')"

subsection \<open>State table\<close>

text \<open>
  The key \<^verbatim>\<open>`${nr}:${money}:${wood}:${cement}:${steel}:${mask}:${counts}`\<close> is a record of
  its seven components: two key strings are equal exactly when the components are. The
  selection step of the source reads positions 1 and 2 of the split key, which are
  \<open>k_money\<close> and \<open>k_wood\<close>.
\<close>

record StateKey =
  k_r :: int
  k_money :: int
  k_wood :: int
  k_cement :: int
  k_steel :: int
  k_mask :: int
  k_counts :: "int list"

record DpNode =
  prevKey :: "StateKey option"
  prevW :: int
  variantIndex :: int
  incomeNeutral :: int
  houseBaseIncome :: int
  totalHouseCapacity :: int
  businessIncomeBaseArr :: "int list"
  businessCapacityArr :: "int list"
  countsArr :: "int list"
  totalStorage :: int
  total :: int
  preferenceCapacity :: "int list"

type_synonym Bucket = "(StateKey \<times> DpNode) list"
type_synonym DpMaps = "Bucket list"

text \<open>Starting resources; every axis is given, as in \<^verbatim>\<open>DEFAULT_BASE_RESOURCES\<close> and in the
  \<^verbatim>\<open>cumulativeStorage\<close> the multi-block driver passes.\<close>

record Resources =
  res_money :: int
  res_wood :: int
  res_cement :: int
  res_steel :: int

definition DEFAULT_BASE_RESOURCES :: Resources where
  "DEFAULT_BASE_RESOURCES = \<lparr>res_money = 1000, res_wood = 100, res_cement = 100, res_steel = 100\<rparr>"

definition DEFAULT_BEAM_WIDTH :: int where "DEFAULT_BEAM_WIDTH = 400"
definition DUPLICATE_PENALTY_THRESHOLD :: int where "DUPLICATE_PENALTY_THRESHOLD = 2"
definition DUPLICATE_PENALTY_RATE :: rat where "DUPLICATE_PENALTY_RATE = toDouble (1 / 10)"
definition SPACE_EFFICIENCY_BONUS :: rat where "SPACE_EFFICIENCY_BONUS = toDouble (1 / 10)"
definition MIN_STAFFING_RATIO :: rat where "MIN_STAFFING_RATIO = toDouble (9 / 10)"
definition STORAGE_PENALTY :: rat where "STORAGE_PENALTY = 0"
definition MAX_RESIDENTS :: int where "MAX_RESIDENTS = 1000"
definition MAX_RESOURCE_UPPER :: int where "MAX_RESOURCE_UPPER = 100000"

record Options =
  beamWidth :: "int option"
  startingResources :: "Resources option"

definition baseResourcesOf :: "Options \<Rightarrow> Resources" where
  "baseResourcesOf opts =
     (case startingResources opts of None \<Rightarrow> DEFAULT_BASE_RESOURCES | Some r \<Rightarrow> r)"

text \<open>The constants the optimizer computes before the outer loop.\<close>

record DpContext =
  cx_variants :: "Variant list"
  cx_capacity :: int
  cx_miscNames :: "string list"
  cx_requiredMask :: int
  cx_businessNames :: "string list"
  cx_maxResidents :: int
  cx_upperMoney :: int
  cx_upperWood :: int
  cx_upperCement :: int
  cx_upperSteel :: int
  cx_beam :: int

definition miscNamesOf :: "Variant list \<Rightarrow> string list" where
  "miscNamesOf variants =
     dedup (map v_name (filter (\<lambda>v. v_type v = ''misc'' \<and> v_mandatory v) variants))"

definition requiredMaskOf :: "string list \<Rightarrow> int" where
  "requiredMaskOf miscNames =
     (if length miscNames > 0 then jsShiftLeftOne (length miscNames) - 1 else 0)"

definition businessNamesOf :: "Variant list \<Rightarrow> string list" where
  "businessNamesOf variants =
     dedup (map v_name (filter (\<lambda>v. v_workerType v = Some Employees) variants))"

definition maxPeoplePerSizeOf :: "Variant list \<Rightarrow> rat" where
  "maxPeoplePerSizeOf variants =
     fold (\<lambda>v m. max m (jsDiv (of_int (v_capacity v)) (of_int (max 1 (v_size v)))))
       (filter (\<lambda>v. v_workerType v = Some Residents) variants) 0"

definition storageObjectOf :: "Variant \<Rightarrow> ResourceCost" where
  "storageObjectOf v =
     (case v_storageCapacity v of StorageObject sc \<Rightarrow> sc | StorageNumber _ \<Rightarrow> emptyCost)"

definition maxStoragePerSizeOf :: "(ResourceCost \<Rightarrow> int option) \<Rightarrow> Variant list \<Rightarrow> rat" where
  "maxStoragePerSizeOf axis variants =
     fold (\<lambda>v m. max m (jsDiv (of_int (orZero (axis (storageObjectOf v))))
                               (of_int (max 1 (v_size v)))))
       (filter isStorageBuilding variants) 0"

definition resourceUpper :: "int \<Rightarrow> int \<Rightarrow> rat \<Rightarrow> int" where
  "resourceUpper base capacity maxStorage =
     min MAX_RESOURCE_UPPER (base + \<lceil>jsMul (of_int capacity) maxStorage\<rceil>)"

definition mkContext :: "Variant list \<Rightarrow> int \<Rightarrow> Options \<Rightarrow> DpContext" where
  "mkContext variants sizeLimit opts =
     (let capacity = max 0 sizeLimit;
          miscNames = miscNamesOf variants;
          baseResources = baseResourcesOf opts
      in \<lparr>cx_variants = variants,
          cx_capacity = capacity,
          cx_miscNames = miscNames,
          cx_requiredMask = requiredMaskOf miscNames,
          cx_businessNames = businessNamesOf variants,
          cx_maxResidents =
            min MAX_RESIDENTS \<lceil>jsMul (of_int capacity) (maxPeoplePerSizeOf variants)\<rceil>,
          cx_upperMoney = resourceUpper (res_money baseResources) capacity
                            (maxStoragePerSizeOf money variants),
          cx_upperWood = resourceUpper (res_wood baseResources) capacity
                            (maxStoragePerSizeOf wood variants),
          cx_upperCement = resourceUpper (res_cement baseResources) capacity
                            (maxStoragePerSizeOf cement variants),
          cx_upperSteel = resourceUpper (res_steel baseResources) capacity
                            (maxStoragePerSizeOf steel variants),
          cx_beam = (case beamWidth opts of None \<Rightarrow> DEFAULT_BEAM_WIDTH | Some b \<Rightarrow> b)\<rparr>)"

definition initialNode :: "nat \<Rightarrow> DpNode" where
  "initialNode nBusinesses =
     \<lparr>prevKey = None, prevW = - 1, variantIndex = - 1, incomeNeutral = 0,
      houseBaseIncome = 0, totalHouseCapacity = 0,
      businessIncomeBaseArr = replicate nBusinesses 0,
      businessCapacityArr = replicate nBusinesses 0,
      countsArr = replicate nBusinesses 0,
      totalStorage = 0, total = 0,
      preferenceCapacity = replicate nBusinesses 0\<rparr>"

definition initialKey :: "Resources \<Rightarrow> nat \<Rightarrow> StateKey" where
  "initialKey baseResources nBusinesses =
     \<lparr>k_r = 0, k_money = res_money baseResources, k_wood = res_wood baseResources,
      k_cement = res_cement baseResources, k_steel = res_steel baseResources,
      k_mask = 0, k_counts = replicate nBusinesses 0\<rparr>"

definition initialMaps :: "DpContext \<Rightarrow> Resources \<Rightarrow> DpMaps" where
  "initialMaps cx baseResources =
     (let n = length (cx_businessNames cx)
      in [(initialKey baseResources n, initialNode n)]
         # replicate (nat (cx_capacity cx)) [])"

subsection \<open>Beam pruner\<close>

definition pruneScore :: "int \<Rightarrow> StateKey \<times> DpNode \<Rightarrow> int" where
  "pruneScore requiredMask e =
     total (snd e)
     + (if requiredMask \<noteq> 0 \<and> k_mask (fst e) = requiredMask then 1000000000 else 0)"

text \<open>\<^verbatim>\<open>arr.slice(0, beam)\<close>: a negative end counts from the end of the array.\<close>

definition jsSliceFromZero :: "'a list \<Rightarrow> int \<Rightarrow> 'a list" where
  "jsSliceFromZero arr n =
     (if n \<ge> 0 then take (nat n) arr else take (nat (int (length arr) + n)) arr)"

definition pruneMapToBeam :: "int \<Rightarrow> Bucket \<Rightarrow> int \<Rightarrow> Bucket" where
  "pruneMapToBeam requiredMask m beam =
     (if int (length m) \<le> beam then m
      else (let arr = sort_key (\<lambda>e. - pruneScore requiredMask e) m;
                toKeep = map fst (jsSliceFromZero arr beam)
            in filter (\<lambda>e. fst e \<in> set toKeep) m))"

subsection \<open>Transition engine\<close>

definition cannotAfford :: "StateKey \<Rightarrow> Variant \<Rightarrow> bool" where
  "cannotAfford key v =
     (let costs = v_costs v;
          needMoney = orZero (money costs);
          needWood = orZero (wood costs);
          needCement = orZero (cement costs);
          needSteel = orZero (steel costs)
      in k_money key < needMoney \<or> k_wood key < needWood
         \<or> k_cement key < needCement \<or> k_steel key < needSteel)"

text \<open>The staffing prefeasibility filter: \<open>True\<close> where the source executes \<^verbatim>\<open>continue\<close>.\<close>

definition staffingRejects :: "DpContext \<Rightarrow> DpNode \<Rightarrow> Variant \<Rightarrow> bool" where
  "staffingRejects cx node v =
     (v_workerType v = Some Employees \<and> \<not> v_mandatory v \<and>
      (let newBusinessCapacity = sum_list (businessCapacityArr node) + v_capacity v;
           currentHouseCapacity = totalHouseCapacity node;
           bi = indexLookup (cx_businessNames cx) (v_name v);
           availableForThisBiz =
             (case bi of Some b \<Rightarrow> nthOr0 (preferenceCapacity node) b | None \<Rightarrow> 0);
           currentlyUsedForThisBiz =
             (case bi of Some b \<Rightarrow> nthOr0 (businessCapacityArr node) b | None \<Rightarrow> 0);
           wouldHaveStaffing = (availableForThisBiz \<ge> currentlyUsedForThisBiz + v_capacity v)
       in newBusinessCapacity > 0
          \<and> (jsQuotientBelow currentHouseCapacity newBusinessCapacity MIN_STAFFING_RATIO
               \<or> \<not> wouldHaveStaffing)))"

definition clampResource :: "int \<Rightarrow> int \<Rightarrow> int" where
  "clampResource upper x = max 0 (min upper x)"

definition willBeMaskOf :: "DpContext \<Rightarrow> Variant \<Rightarrow> int" where
  "willBeMaskOf cx v =
     (if v_type v = ''misc''
      then (case indexLookup (cx_miscNames cx) (v_name v) of
              Some idx \<Rightarrow> jsShiftLeftOne idx | None \<Rightarrow> 0)
      else 0)"

text \<open>The aggregate fields of the successor; the back pointers and the score are set when
  the node is stored.\<close>

definition addPreference :: "string list \<Rightarrow> int \<Rightarrow> string \<Rightarrow> int list \<Rightarrow> int list" where
  "addPreference businessNames houseCapacity prefBizName pc =
     (case indexLookup businessNames prefBizName of
        Some bi \<Rightarrow> pc[bi := nthOr0 pc bi + houseCapacity]
      | None \<Rightarrow> pc)"

definition nextAggregates :: "DpContext \<Rightarrow> DpNode \<Rightarrow> Variant \<Rightarrow> DpNode" where
  "nextAggregates cx node v =
     (case v_workerType v of
        Some Employees \<Rightarrow>
          (case indexLookup (cx_businessNames cx) (v_name v) of
             Some bi \<Rightarrow>
               node\<lparr>countsArr := (countsArr node)[bi := nthOr0 (countsArr node) bi + 1],
                    businessIncomeBaseArr := (businessIncomeBaseArr node)
                       [bi := nthOr0 (businessIncomeBaseArr node) bi + v_income v],
                    businessCapacityArr := (businessCapacityArr node)
                       [bi := nthOr0 (businessCapacityArr node) bi + v_capacity v]\<rparr>
           | None \<Rightarrow> node)
      | Some Residents \<Rightarrow>
          node\<lparr>houseBaseIncome := houseBaseIncome node + v_income v,
               totalHouseCapacity := totalHouseCapacity node + v_capacity v,
               preferenceCapacity :=
                 (case v_prefers v of
                    Some (p # ps) \<Rightarrow>
                      fold (addPreference (cx_businessNames cx) (v_capacity v)) (p # ps)
                        (preferenceCapacity node)
                  | _ \<Rightarrow>
                      fold (\<lambda>bi pc. pc[bi := nthOr0 pc bi + v_capacity v])
                        [0..<length (cx_businessNames cx)] (preferenceCapacity node))\<rparr>
      | None \<Rightarrow> node\<lparr>incomeNeutral := incomeNeutral node + v_income v\<rparr>)"

subsection \<open>Heuristic estimator\<close>

record EstItem =
  it_incomePerWorker :: rat
  it_capacity :: int
  it_count :: int
  it_businessIndex :: nat

definition duplicatePenaltyOf :: "int \<Rightarrow> rat" where
  "duplicatePenaltyOf cnt =
     (if cnt > DUPLICATE_PENALTY_THRESHOLD
      then jsMul DUPLICATE_PENALTY_RATE (of_int (cnt - DUPLICATE_PENALTY_THRESHOLD)) else 0)"

definition penaltyMultiplierOf :: "int \<Rightarrow> rat" where
  "penaltyMultiplierOf cnt = max 0 (jsSub 1 (duplicatePenaltyOf cnt))"

definition estimatorItem :: "DpNode \<Rightarrow> nat \<Rightarrow> EstItem list" where
  "estimatorItem nxt bi =
     (let totalIncomeBase = nthOr0 (businessIncomeBaseArr nxt) bi;
          totalCap = nthOr0 (businessCapacityArr nxt) bi;
          availableResidents = nthOr0 (preferenceCapacity nxt) bi;
          cnt = nthOr0 (countsArr nxt) bi;
          effectiveStaffing = min totalCap availableResidents;
          incomePerWorker =
            (if totalCap > 0
             then jsMul (jsDiv (of_int totalIncomeBase) (of_int totalCap))
                    (penaltyMultiplierOf cnt)
             else 0)
      in if totalCap > 0 \<and> effectiveStaffing > 0
         then [\<lparr>it_incomePerWorker = incomePerWorker, it_capacity = effectiveStaffing,
                it_count = cnt, it_businessIndex = bi\<rparr>]
         else [])"

definition estimatorItems :: "nat \<Rightarrow> DpNode \<Rightarrow> EstItem list" where
  "estimatorItems nBusinesses nxt =
     sort_key (\<lambda>it. - it_incomePerWorker it)
       (concat (map (estimatorItem nxt) [0..<nBusinesses]))"

definition allocateItem :: "DpNode \<Rightarrow> EstItem \<Rightarrow> int list \<times> rat \<times> int \<Rightarrow> int list \<times> rat \<times> int" where
  "allocateItem nxt it st =
     (let usedCapacity = fst st; businessIncomeEst = fst (snd st);
          totalAllocatedEst = snd (snd st);
          bi = it_businessIndex it;
          availableForBiz = nthOr0 (preferenceCapacity nxt) bi;
          alreadyUsed = nthOr0 usedCapacity bi;
          canStillAllocate = min (availableForBiz - alreadyUsed) (it_capacity it)
      in if canStillAllocate > 0
         then (usedCapacity[bi := nthOr0 usedCapacity bi + canStillAllocate],
               jsAdd businessIncomeEst
                 (jsMul (of_int canStillAllocate) (it_incomePerWorker it)),
               totalAllocatedEst + canStillAllocate)
         else st)"

text \<open>The score \<^verbatim>\<open>totalEst\<close> of a successor with aggregates \<open>nxt\<close> at size \<open>nw\<close>, and the
  estimated number of allocated residents.\<close>

definition estimate :: "DpContext \<Rightarrow> int \<Rightarrow> Variant \<Rightarrow> DpNode \<Rightarrow> int \<times> int" where
  "estimate cx nw v nxt =
     (let n = length (cx_businessNames cx);
          alloc = fold (allocateItem nxt) (estimatorItems n nxt) (replicate n 0, 0, 0);
          usedCapacity = fst alloc; businessIncomeEst = fst (snd alloc);
          totalAllocatedEst = snd (snd alloc);
          totalUnstaffedCapacity =
            sum_list (map (\<lambda>bi. max 0 (nthOr0 (businessCapacityArr nxt) bi
                                         - nthOr0 usedCapacity bi)) [0..<n]);
          totalBusinessCapacity =
            sum_list (map (\<lambda>bi. nthOr0 (businessCapacityArr nxt) bi) [0..<n]);
          totalBusinessIncome =
            sum_list (map (\<lambda>bi. nthOr0 (businessIncomeBaseArr nxt) bi) [0..<n]);
          potentialAvgIncomePerWorker =
            (if totalBusinessCapacity > 0
             then jsDiv (of_int totalBusinessIncome) (of_int totalBusinessCapacity) else 15);
          understaffingPenalty =
            jsMul (of_int totalUnstaffedCapacity) potentialAvgIncomePerWorker;
          houseEfficiencyEst =
            (if totalHouseCapacity nxt > 0
             then jsDiv (of_int totalAllocatedEst) (of_int (totalHouseCapacity nxt)) else 1);
          scaledHouseIncomeEst = jsMul (of_int (houseBaseIncome nxt)) houseEfficiencyEst;
          freeSpace = cx_capacity cx - nw;
          spaceEfficiencyBonus = jsMul (of_int freeSpace) SPACE_EFFICIENCY_BONUS;
          storagePenalty =
            (if isStorageBuilding v \<and> \<not> v_mandatory v then STORAGE_PENALTY else 0)
      in (jsRound
            (jsSub
               (jsAdd
                  (jsSub
                     (jsAdd (jsAdd businessIncomeEst scaledHouseIncomeEst)
                        (of_int (incomeNeutral nxt)))
                     understaffingPenalty)
                  spaceEfficiencyBonus)
               storagePenalty),
          totalAllocatedEst))"

text \<open>The key and the node of the successor of \<open>(key, node)\<close> at size \<open>w\<close> by variant
  number \<open>i\<close>.\<close>

definition successor ::
  "DpContext \<Rightarrow> nat \<Rightarrow> StateKey \<Rightarrow> DpNode \<Rightarrow> nat \<Rightarrow> Variant \<Rightarrow> StateKey \<times> DpNode" where
  "successor cx w key node i v =
     (let nw = int w + v_size v;
          sc = storageObjectOf v;
          gain = (\<lambda>axis. if isStorageBuilding v then orZero (axis sc) else 0);
          newMoney = clampResource (cx_upperMoney cx) (k_money key + gain money);
          newWood = clampResource (cx_upperWood cx) (k_wood key + gain wood);
          newCement = clampResource (cx_upperCement cx) (k_cement key + gain cement);
          newSteel = clampResource (cx_upperSteel cx) (k_steel key + gain steel);
          nxt = nextAggregates cx node v;
          est = estimate cx nw v nxt;
          totalEst = fst est; totalAllocatedEst = snd est;
          maskNew = jsBitOr (k_mask key) (willBeMaskOf cx v);
          nr = min (cx_maxResidents cx) (max 0 (totalHouseCapacity nxt - totalAllocatedEst))
      in (\<lparr>k_r = nr, k_money = newMoney, k_wood = newWood, k_cement = newCement,
           k_steel = newSteel, k_mask = maskNew, k_counts = countsArr nxt\<rparr>,
          nxt\<lparr>prevKey := Some key, prevW := int w, variantIndex := int i,
              total := totalEst\<rparr>))"

text \<open>\<^verbatim>\<open>dpMaps[nw].get(newKey)\<close> throws where \<^verbatim>\<open>dpMaps[nw]\<close> is \<^verbatim>\<open>undefined\<close>; the node is
  stored when the key is new or the score strictly higher, and the bucket is recorded in
  \<^verbatim>\<open>updatedIndices\<close>.\<close>

definition insertSuccessor ::
  "int \<Rightarrow> StateKey \<Rightarrow> DpNode \<Rightarrow> DpMaps \<times> nat list \<Rightarrow> Failure + DpMaps \<times> nat list" where
  "insertSuccessor nw newKey newNode st =
     (let dpMaps = fst st; updatedIndices = snd st
      in if nw < 0 \<or> nw \<ge> int (length dpMaps) then Inl TypeError
         else (let stored =
                     (dpMaps[nat nw := AList.update newKey newNode (dpMaps ! nat nw)],
                      if nat nw \<in> set updatedIndices then updatedIndices
                      else updatedIndices @ [nat nw])
               in case map_of (dpMaps ! nat nw) newKey of
                    None \<Rightarrow> Inr stored
                  | Some existing \<Rightarrow>
                      if total newNode > total existing then Inr stored else Inr st))"

definition dpTransition ::
  "DpContext \<Rightarrow> nat \<Rightarrow> StateKey \<Rightarrow> DpNode \<Rightarrow> nat \<times> Variant \<Rightarrow> DpMaps \<times> nat list
   \<Rightarrow> Failure + DpMaps \<times> nat list" where
  "dpTransition cx w key node iv st =
     (let i = fst iv; v = snd iv; nw = int w + v_size v
      in if nw > cx_capacity cx then Inr st
         else if \<not> isStorageBuilding v \<and> cannotAfford key v then Inr st
         else if staffingRejects cx node v then Inr st
         else (let s = successor cx w key node i v
               in insertSuccessor nw (fst s) (snd s) st))"

text \<open>
  The loop over the entries of \<^verbatim>\<open>dpMaps[w]\<close> runs over the bucket as it is when the
  pass starts: a transition writes bucket \<open>w + size\<close>, and no variant the expander emits
  has size 0.
\<close>

definition dpExpandEntry ::
  "DpContext \<Rightarrow> nat \<Rightarrow> StateKey \<times> DpNode \<Rightarrow> DpMaps \<times> nat list \<Rightarrow> Failure + DpMaps \<times> nat list" where
  "dpExpandEntry cx w e st =
     foldE (dpTransition cx w (fst e) (snd e)) (enumerate 0 (cx_variants cx)) st"

definition pruneUpdated :: "DpContext \<Rightarrow> nat list \<Rightarrow> DpMaps \<Rightarrow> DpMaps" where
  "pruneUpdated cx updatedIndices dpMaps =
     fold (\<lambda>idx m. m[idx := pruneMapToBeam (cx_requiredMask cx) (m ! idx) (cx_beam cx)])
       updatedIndices dpMaps"

text \<open>One pass of the outer loop: the transitions out of bucket \<open>w\<close>, which give the new
  table and \<^verbatim>\<open>updatedIndices\<close>, then the pruning of the updated buckets.\<close>

definition dpExpandBucket :: "DpContext \<Rightarrow> nat \<Rightarrow> DpMaps \<Rightarrow> Failure + DpMaps \<times> nat list" where
  "dpExpandBucket cx w dpMaps = foldE (dpExpandEntry cx w) (dpMaps ! w) (dpMaps, [])"

definition dpPass :: "DpContext \<Rightarrow> nat \<Rightarrow> DpMaps \<Rightarrow> Failure + DpMaps" where
  "dpPass cx w dpMaps =
     (case dpExpandBucket cx w dpMaps of
        Inl e \<Rightarrow> Inl e
      | Inr st \<Rightarrow> Inr (pruneUpdated cx (snd st) (fst st)))"

definition dpLoop :: "DpContext \<Rightarrow> DpMaps \<Rightarrow> Failure + DpMaps" where
  "dpLoop cx dpMaps = foldE (dpPass cx) [0..<Suc (nat (cx_capacity cx))] dpMaps"

text \<open>The state table after the outer loop.\<close>

definition dpSolve :: "BuildingDefinitions \<Rightarrow> int \<Rightarrow> Options \<Rightarrow> Failure + DpMaps" where
  "dpSolve defs sizeLimit opts =
     (let cx = mkContext (buildVariantsFromDefinitions defs) sizeLimit opts
      in dpLoop cx (initialMaps cx (baseResourcesOf opts)))"

subsection \<open>Selection and back-reconstruction\<close>

text \<open>\<open>None\<close> stands for \<^verbatim>\<open>Number.NEGATIVE_INFINITY\<close>.\<close>

record Selection =
  bestW :: int
  bestKey :: "StateKey option"
  bestValue :: "int option"
  bestWithAllW :: int
  bestWithAllKey :: "StateKey option"
  bestWithAllValue :: "int option"

definition initialSelection :: Selection where
  "initialSelection =
     \<lparr>bestW = 0, bestKey = None, bestValue = None,
      bestWithAllW = - 1, bestWithAllKey = None, bestWithAllValue = None\<rparr>"

definition exceeds :: "int \<Rightarrow> int option \<Rightarrow> bool" where
  "exceeds x best = (case best of None \<Rightarrow> True | Some b \<Rightarrow> x > b)"

text \<open>
  One entry of the selection loop. The source takes \<^verbatim>\<open>capAvail\<close> from position 1 and
  \<^verbatim>\<open>maskVal\<close> from position 2 of the split key, that is, the money and the wood
  components.
\<close>

definition selectEntry :: "int \<Rightarrow> nat \<Rightarrow> StateKey \<times> DpNode \<Rightarrow> Selection \<Rightarrow> Selection" where
  "selectEntry requiredMask w e sel =
     (let key = fst e; node = snd e;
          capAvail = k_money key;
          maskVal = k_wood key
      in if capAvail < 0 then sel
         else (let sel1 =
                     (if requiredMask \<noteq> 0 \<and> maskVal = requiredMask
                         \<and> exceeds (total node) (bestWithAllValue sel)
                      then sel\<lparr>bestWithAllValue := Some (total node),
                               bestWithAllW := int w, bestWithAllKey := Some key\<rparr>
                      else sel)
               in if exceeds (total node) (bestValue sel1)
                  then sel1\<lparr>bestValue := Some (total node), bestW := int w,
                            bestKey := Some key\<rparr>
                  else sel1))"

definition selectBest :: "int \<Rightarrow> DpMaps \<Rightarrow> Selection" where
  "selectBest requiredMask dpMaps =
     fold (\<lambda>wm sel. fold (selectEntry requiredMask (fst wm)) (snd wm) sel)
       (enumerate 0 dpMaps) initialSelection"

text \<open>
  The walk along the parent pointers, \<^verbatim>\<open>while (curW > 0 && curKey)\<close>. Nothing in the loop
  itself bounds the number of rounds, so the walk is a partial function: \<open>None\<close> is a walk
  that never ends.
\<close>

partial_function (option) backtrack ::
  "DpMaps \<Rightarrow> Variant list \<Rightarrow> int \<Rightarrow> StateKey option \<Rightarrow> Variant list
   \<Rightarrow> (Failure + Variant list) option" where
  "backtrack dpMaps variants curW curKey chosenSequence =
     (case curKey of
        None \<Rightarrow> Some (Inr chosenSequence)
      | Some k \<Rightarrow>
          if curW \<le> 0 then Some (Inr chosenSequence)
          else if curW \<ge> int (length dpMaps) then Some (Inl TypeError)
          else (case map_of (dpMaps ! nat curW) k of
                  None \<Rightarrow> Some (Inr chosenSequence)
                | Some node \<Rightarrow>
                    if variantIndex node \<ge> int (length variants) then Some (Inl TypeError)
                    else backtrack dpMaps variants (prevW node) (prevKey node)
                           (if variantIndex node \<ge> 0
                            then chosenSequence @ [variants ! nat (variantIndex node)]
                            else chosenSequence)))"

declare backtrack.simps [code]

subsection \<open>Forward simulator\<close>

fun joinComma :: "string list \<Rightarrow> string" where
  "joinComma [] = []"
| "joinComma [x] = x"
| "joinComma (x # y # ys) = x @ '','' @ joinComma (y # ys)"

fun splitComma :: "string \<Rightarrow> string list" where
  "splitComma [] = [[]]"
| "splitComma (c # cs) =
     (if c = CHR '','' then [] # splitComma cs
      else (case splitComma cs of [] \<Rightarrow> [[c]] | p # ps \<Rightarrow> (c # p) # ps))"

definition prefKeyOf :: "Variant \<Rightarrow> string" where
  "prefKeyOf v =
     (case v_prefers v of Some (p # ps) \<Rightarrow> joinComma (sort (p # ps)) | _ \<Rightarrow> ''*'')"

type_synonym ResidentPools = "(string \<times> int) list"

definition poolGet :: "ResidentPools \<Rightarrow> string \<Rightarrow> int" where
  "poolGet pools k = (case map_of pools k of None \<Rightarrow> 0 | Some n \<Rightarrow> n)"

record Inventory =
  inv_residentPools :: ResidentPools
  inv_totalHouseCapacity :: int
  inv_houseBaseIncome :: int
  inv_neutralIncome :: int

definition inventoryStep :: "Variant \<Rightarrow> Inventory \<Rightarrow> Inventory" where
  "inventoryStep v ivt =
     (case v_workerType v of
        Some Residents \<Rightarrow>
          ivt\<lparr>inv_totalHouseCapacity := inv_totalHouseCapacity ivt + v_capacity v,
              inv_houseBaseIncome := inv_houseBaseIncome ivt + v_income v,
              inv_residentPools :=
                AList.update (prefKeyOf v)
                  (poolGet (inv_residentPools ivt) (prefKeyOf v) + v_capacity v)
                  (inv_residentPools ivt)\<rparr>
      | Some Employees \<Rightarrow> ivt
      | None \<Rightarrow> ivt\<lparr>inv_neutralIncome := inv_neutralIncome ivt + v_income v\<rparr>)"

text \<open>The loop over a snapshot of the pools for one business of capacity \<open>cap\<close>, with its
  \<^verbatim>\<open>continue\<close> and \<^verbatim>\<open>break\<close>.\<close>

fun drawWorkers ::
  "string \<Rightarrow> int \<Rightarrow> (string \<times> int) list \<Rightarrow> int \<times> ResidentPools \<Rightarrow> int \<times> ResidentPools" where
  "drawWorkers name cap [] st = st"
| "drawWorkers name cap ((prefKey, available) # rest) st =
     (if available \<le> 0 then drawWorkers name cap rest st
      else if \<not> (prefKey = ''*'' \<or> name \<in> set (splitComma prefKey))
      then drawWorkers name cap rest st
      else (let allocated = fst st; pools = snd st;
                needed = cap - allocated;
                toAllocate = min available needed;
                st' = (allocated + toAllocate,
                       AList.update prefKey (available - toAllocate) pools)
            in if fst st' \<ge> cap then st' else drawWorkers name cap rest st'))"

definition staffingStep ::
  "Variant list \<Rightarrow> Variant \<Rightarrow> ResidentPools \<times> rat \<times> int \<Rightarrow> ResidentPools \<times> rat \<times> int" where
  "staffingStep seq v st =
     (if v_workerType v = Some Employees
      then (let pools = fst st; businessIncome = fst (snd st);
                totalAllocatedEmployees = snd (snd st);
                cap = v_capacity v;
                drawn = drawWorkers (v_name v) cap pools (0, pools);
                allocated = fst drawn;
                efficiency = (if cap > 0 then jsDiv (of_int allocated) (of_int cap) else 1);
                count = int (length (filter (\<lambda>x. v_name x = v_name v
                                              \<and> v_workerType x = Some Employees) seq))
            in (snd drawn,
                jsAdd businessIncome
                  (jsMul (jsMul (of_int (v_income v)) efficiency) (penaltyMultiplierOf count)),
                totalAllocatedEmployees + allocated))
      else st)"

text \<open>\<^verbatim>\<open>simulateSequence(seq).totalIncome\<close>.\<close>

definition simulateSequence :: "Variant list \<Rightarrow> int" where
  "simulateSequence seq =
     (let ivt = fold inventoryStep seq
                  \<lparr>inv_residentPools = [], inv_totalHouseCapacity = 0,
                   inv_houseBaseIncome = 0, inv_neutralIncome = 0\<rparr>;
          staffed = fold (staffingStep seq) seq (inv_residentPools ivt, 0, 0);
          businessIncome = fst (snd staffed);
          totalAllocatedEmployees = snd (snd staffed);
          houseEfficiency =
            (if inv_totalHouseCapacity ivt > 0
             then jsDiv (of_int totalAllocatedEmployees) (of_int (inv_totalHouseCapacity ivt))
             else 1);
          scaledHouseIncome = jsMul (of_int (inv_houseBaseIncome ivt)) houseEfficiency
      in jsRound (jsAdd (jsAdd businessIncome scaledHouseIncome)
                    (of_int (inv_neutralIncome ivt))))"

subsection \<open>Single-block result\<close>

record CombinationItem =
  ci_name :: string
  ci_level :: int
  ci_count :: int
  ci_size :: int
  ci_incomePerBuilding :: int
  ci_capacity :: int
  ci_storageCapacity :: StorageCapacity
  ci_workerType :: "WorkerType option"
  ci_type :: string
  ci_totalIncome :: int
  ci_totalSize :: int

record BlockResult =
  combination :: "CombinationItem list"
  totalIncome :: int
  totalSize :: int
  resultTotalStorage :: int

text \<open>
  \<^verbatim>\<open>finalCounts\<close> is keyed by \<^verbatim>\<open>`${v.name}:lvl${v.level}`\<close> and the key is split at
  \<^verbatim>\<open>":"\<close> again; the model keeps the pair of name and level, which is what the split
  returns for every building name without a colon.
\<close>

definition countStep :: "Variant \<Rightarrow> ((string \<times> int) \<times> int) list \<Rightarrow> ((string \<times> int) \<times> int) list" where
  "countStep v counts =
     (let key = (v_name v, v_level v)
      in AList.update key ((case map_of counts key of None \<Rightarrow> 0 | Some c \<Rightarrow> c) + 1) counts)"

definition combinationItem :: "Variant list \<Rightarrow> (string \<times> int) \<times> int \<Rightarrow> Failure + CombinationItem" where
  "combinationItem variants kc =
     (let name = fst (fst kc); level = snd (fst kc); count = snd kc
      in case find (\<lambda>x. v_name x = name \<and> v_level x = level) variants of
           None \<Rightarrow> Inl TypeError
         | Some variant \<Rightarrow>
             Inr \<lparr>ci_name = name, ci_level = level, ci_count = count,
                  ci_size = v_size variant, ci_incomePerBuilding = v_income variant,
                  ci_capacity = v_capacity variant,
                  ci_storageCapacity = v_storageCapacity variant,
                  ci_workerType = v_workerType variant, ci_type = v_type variant,
                  ci_totalIncome = v_income variant * count,
                  ci_totalSize = v_size variant * count\<rparr>)"

fun mapE :: "('a \<Rightarrow> Failure + 'b) \<Rightarrow> 'a list \<Rightarrow> Failure + 'b list" where
  "mapE f [] = Inr []"
| "mapE f (x # xs) =
     (case f x of Inl e \<Rightarrow> Inl e
      | Inr y \<Rightarrow> (case mapE f xs of Inl e \<Rightarrow> Inl e | Inr ys \<Rightarrow> Inr (y # ys)))"

definition finalResult :: "Variant list \<Rightarrow> Variant list \<Rightarrow> Failure + BlockResult" where
  "finalResult variants finalSeq =
     (case mapE (combinationItem variants) (fold countStep finalSeq []) of
        Inl e \<Rightarrow> Inl e
      | Inr combinationFinal \<Rightarrow>
          Inr \<lparr>combination = combinationFinal,
               totalIncome = simulateSequence finalSeq,
               totalSize = sum_list (map ci_totalSize combinationFinal),
               resultTotalStorage = 0\<rparr>)"

text \<open>The selection and everything after it, on the state table the outer loop left.\<close>

definition resultFromTable ::
  "DpContext \<Rightarrow> DpMaps \<Rightarrow> (Failure + BlockResult) option" where
  "resultFromTable cx dpMaps =
     (let sel = selectBest (cx_requiredMask cx) dpMaps
      in if cx_requiredMask cx \<noteq> 0 \<and> bestWithAllKey sel = None then Some (Inl NoSolution)
         else (let start = (if cx_requiredMask cx \<noteq> 0
                            then (bestWithAllW sel, bestWithAllKey sel)
                            else (bestW sel, bestKey sel))
               in case backtrack dpMaps (cx_variants cx) (fst start) (snd start) [] of
                    None \<Rightarrow> None
                  | Some (Inl e) \<Rightarrow> Some (Inl e)
                  | Some (Inr chosenSequence) \<Rightarrow>
                      Some (finalResult (cx_variants cx) (rev chosenSequence))))"

definition optimizeBlockIncomeFromDefinitions ::
  "BuildingDefinitions \<Rightarrow> int \<Rightarrow> Options \<Rightarrow> (Failure + BlockResult) option" where
  "optimizeBlockIncomeFromDefinitions defs sizeLimit opts =
     (let cx = mkContext (buildVariantsFromDefinitions defs) sizeLimit opts
      in case dpLoop cx (initialMaps cx (baseResourcesOf opts)) of
           Inl e \<Rightarrow> Some (Inl e)
         | Inr dpMaps \<Rightarrow> resultFromTable cx dpMaps)"

subsection \<open>Multi-block driver\<close>

record BlockEntry =
  blockNumber :: int
  blockCombination :: "CombinationItem list"
  blockTotalIncome :: int
  blockTotalSize :: int
  blockStorage :: Resources

record MultiBlockResult =
  blocks :: "BlockEntry list"
  aggregateTotalIncome :: int
  aggregateTotalStorage :: Resources
  baseStorage :: Resources

definition zeroResources :: Resources where
  "zeroResources = \<lparr>res_money = 0, res_wood = 0, res_cement = 0, res_steel = 0\<rparr>"

definition addResources :: "Resources \<Rightarrow> Resources \<Rightarrow> Resources" where
  "addResources a b =
     \<lparr>res_money = res_money a + res_money b, res_wood = res_wood a + res_wood b,
      res_cement = res_cement a + res_cement b, res_steel = res_steel a + res_steel b\<rparr>"

text \<open>One round of the loop that sums \<^verbatim>\<open>blockStorageContribution\<close> over the combination.\<close>

definition storageStep :: "CombinationItem \<Rightarrow> Resources \<Rightarrow> Resources" where
  "storageStep item acc =
     (case ci_storageCapacity item of
        StorageObject sc \<Rightarrow>
          \<lparr>res_money = res_money acc + orZero (money sc) * ci_count item,
           res_wood = res_wood acc + orZero (wood sc) * ci_count item,
           res_cement = res_cement acc + orZero (cement sc) * ci_count item,
           res_steel = res_steel acc + orZero (steel sc) * ci_count item\<rparr>
      | StorageNumber _ \<Rightarrow> acc)"

definition blockStorageContribution :: "CombinationItem list \<Rightarrow> Resources" where
  "blockStorageContribution items = fold storageStep items zeroResources"

text \<open>The reservation of the mandatory misc buildings.\<close>

definition isMandatoryBuilding :: "BuildingDefinition \<Rightarrow> bool" where
  "isMandatoryBuilding building =
     (truthyBool (def_mandatory building)
      \<or> (case def_upgrades building of
            None \<Rightarrow> False
          | Some ups \<Rightarrow> list_ex (\<lambda>up. truthyBool (up_mandatory up)) ups))"

definition bestVariantOf :: "Variant list \<Rightarrow> Variant option" where
  "bestVariantOf buildingVariants =
     (case buildingVariants of
        [] \<Rightarrow> None
      | b # rest \<Rightarrow> Some (fold (\<lambda>curr best. if v_level curr > v_level best then curr else best)
                            rest b))"

definition reserveBuilding :: "BuildingDefinitions \<Rightarrow> string \<times> BuildingDefinition \<Rightarrow> Variant list" where
  "reserveBuilding defs nb =
     (if isMandatoryBuilding (snd nb)
      then (case bestVariantOf
                   (filter (\<lambda>v. v_name v = fst nb \<and> v_mandatory v)
                      (buildVariantsFromDefinitions defs)) of
              None \<Rightarrow> [] | Some bestVariant \<Rightarrow> [bestVariant])
      else [])"

definition mandatoryMiscBuildingsOf :: "BuildingDefinitions \<Rightarrow> Variant list" where
  "mandatoryMiscBuildingsOf defs =
     (case map_of (buildingTypes defs) ''misc'' of
        None \<Rightarrow> []
      | Some misc \<Rightarrow> concat (map (reserveBuilding defs) misc))"

definition mandatoryBuildingItem :: "Variant \<Rightarrow> CombinationItem" where
  "mandatoryBuildingItem variant =
     \<lparr>ci_name = v_name variant, ci_level = v_level variant, ci_count = 1,
      ci_size = v_size variant, ci_incomePerBuilding = v_income variant,
      ci_capacity = v_capacity variant, ci_storageCapacity = v_storageCapacity variant,
      ci_workerType = v_workerType variant, ci_type = v_type variant,
      ci_totalIncome = v_income variant, ci_totalSize = v_size variant\<rparr>"

text \<open>
  The copy \<^verbatim>\<open>JSON.parse(JSON.stringify(defs))\<close> with the \<^verbatim>\<open>mandatory\<close> flags of the misc
  buildings cleared, as a value; the store-level account of the copy is in the last
  subsection. The last block reaches the misc group through the key \<^verbatim>\<open>misc\<close>, the other
  blocks walk over all groups and test the name.
\<close>

definition stripDefinition :: "BuildingDefinition \<Rightarrow> BuildingDefinition" where
  "stripDefinition building =
     building\<lparr>def_mandatory := Some False,
              def_upgrades :=
                map_option (map (\<lambda>up. up\<lparr>up_mandatory := Some False\<rparr>)) (def_upgrades building)\<rparr>"

definition stripGroup :: "TypeGroup \<Rightarrow> TypeGroup" where
  "stripGroup typeGroup = map (\<lambda>nb. (fst nb, stripDefinition (snd nb))) typeGroup"

definition modifiedDefsLast :: "BuildingDefinitions \<Rightarrow> BuildingDefinitions" where
  "modifiedDefsLast defs =
     (case map_of (buildingTypes defs) ''misc'' of
        None \<Rightarrow> defs
      | Some misc \<Rightarrow>
          defs\<lparr>buildingTypes := AList.update ''misc'' (stripGroup misc) (buildingTypes defs)\<rparr>)"

definition modifiedDefsOther :: "BuildingDefinitions \<Rightarrow> BuildingDefinitions" where
  "modifiedDefsOther defs =
     defs\<lparr>buildingTypes :=
            map (\<lambda>tg. if fst tg = ''misc'' then (fst tg, stripGroup (snd tg)) else tg)
              (buildingTypes defs)\<rparr>"

record DriverState =
  blockResults :: "BlockEntry list"
  aggregateIncome :: int
  aggregateStorageFromBuildings :: Resources

text \<open>One round of the loop over the blocks, for \<open>numBlocks \<ge> 2\<close>, from the point where
  \<^verbatim>\<open>modifiedDefs\<close> has been prepared.\<close>

definition runBlockWith ::
  "int \<Rightarrow> int \<Rightarrow> int option \<Rightarrow> Variant list \<Rightarrow> nat \<Rightarrow> BuildingDefinitions \<Rightarrow> DriverState
   \<Rightarrow> (Failure + DriverState) option" where
  "runBlockWith numBlocks sizeLimit beam mandatoryMiscBuildings blockIdx modifiedDefs st =
     (let baseResources = DEFAULT_BASE_RESOURCES;
          reservedSize = sum_list (map v_size mandatoryMiscBuildings);
          reservedIncome = sum_list (map v_income mandatoryMiscBuildings);
          cumulativeStorage = addResources baseResources (aggregateStorageFromBuildings st);
          isLastBlock = (int blockIdx = numBlocks - 1);
          effectiveSizeLimit = (if isLastBlock then sizeLimit - reservedSize else sizeLimit);
          opts = \<lparr>beamWidth = beam, startingResources = Some cumulativeStorage\<rparr>
      in case optimizeBlockIncomeFromDefinitions modifiedDefs effectiveSizeLimit opts of
           None \<Rightarrow> None
         | Some (Inl e) \<Rightarrow> Some (Inl e)
         | Some (Inr blockResult) \<Rightarrow>
             (let injected =
                    (if isLastBlock \<and> length mandatoryMiscBuildings > 0
                     then blockResult\<lparr>combination := combination blockResult
                                           @ map mandatoryBuildingItem mandatoryMiscBuildings,
                                       totalIncome := totalIncome blockResult + reservedIncome,
                                       totalSize := totalSize blockResult + reservedSize\<rparr>
                     else blockResult);
                  contribution = blockStorageContribution (combination injected)
              in Some (Inr
                   \<lparr>blockResults = blockResults st
                        @ [\<lparr>blockNumber = int blockIdx + 1,
                            blockCombination = combination injected,
                            blockTotalIncome = totalIncome injected,
                            blockTotalSize = totalSize injected,
                            blockStorage = contribution\<rparr>],
                    aggregateIncome = aggregateIncome st + totalIncome injected,
                    aggregateStorageFromBuildings =
                      addResources (aggregateStorageFromBuildings st) contribution\<rparr>)))"

definition runBlock ::
  "BuildingDefinitions \<Rightarrow> int \<Rightarrow> int \<Rightarrow> int option \<Rightarrow> Variant list \<Rightarrow> nat \<Rightarrow> DriverState
   \<Rightarrow> (Failure + DriverState) option" where
  "runBlock defs numBlocks sizeLimit beam mandatoryMiscBuildings blockIdx st =
     runBlockWith numBlocks sizeLimit beam mandatoryMiscBuildings blockIdx
       (if int blockIdx = numBlocks - 1 then modifiedDefsLast defs else modifiedDefsOther defs)
       st"

fun blocksLoop ::
  "(nat \<Rightarrow> DriverState \<Rightarrow> (Failure + DriverState) option) \<Rightarrow> nat list \<Rightarrow> DriverState
   \<Rightarrow> (Failure + DriverState) option" where
  "blocksLoop body [] st = Some (Inr st)"
| "blocksLoop body (blockIdx # rest) st =
     (case body blockIdx st of
        None \<Rightarrow> None
      | Some (Inl e) \<Rightarrow> Some (Inl e)
      | Some (Inr st') \<Rightarrow> blocksLoop body rest st')"

definition initialDriverState :: DriverState where
  "initialDriverState =
     \<lparr>blockResults = [], aggregateIncome = 0, aggregateStorageFromBuildings = zeroResources\<rparr>"

definition singleBlockResult :: "BlockResult \<Rightarrow> MultiBlockResult" where
  "singleBlockResult result =
     (let contribution = blockStorageContribution (combination result)
      in \<lparr>blocks = [\<lparr>blockNumber = 1, blockCombination = combination result,
                      blockTotalIncome = totalIncome result,
                      blockTotalSize = totalSize result,
                      blockStorage = contribution\<rparr>],
          aggregateTotalIncome = totalIncome result,
          aggregateTotalStorage = addResources DEFAULT_BASE_RESOURCES contribution,
          baseStorage = DEFAULT_BASE_RESOURCES\<rparr>)"

definition multiBlockResult :: "DriverState \<Rightarrow> MultiBlockResult" where
  "multiBlockResult st =
     \<lparr>blocks = blockResults st,
      aggregateTotalIncome = aggregateIncome st,
      aggregateTotalStorage =
        addResources DEFAULT_BASE_RESOURCES (aggregateStorageFromBuildings st),
      baseStorage = DEFAULT_BASE_RESOURCES\<rparr>"

definition optimizeMultipleBlocks ::
  "BuildingDefinitions \<Rightarrow> int \<Rightarrow> int \<Rightarrow> int option \<Rightarrow> (Failure + MultiBlockResult) option" where
  "optimizeMultipleBlocks defs numBlocks sizeLimit beam =
     (if numBlocks < 1 then Some (Inl InvalidArgument)
      else if numBlocks = 1
      then (case optimizeBlockIncomeFromDefinitions defs sizeLimit
                   \<lparr>beamWidth = beam, startingResources = None\<rparr> of
              None \<Rightarrow> None
            | Some (Inl e) \<Rightarrow> Some (Inl e)
            | Some (Inr result) \<Rightarrow> Some (Inr (singleBlockResult result)))
      else (case blocksLoop
                   (runBlock defs numBlocks sizeLimit beam (mandatoryMiscBuildingsOf defs))
                   [0..<nat numBlocks] initialDriverState of
              None \<Rightarrow> None
            | Some (Inl e) \<Rightarrow> Some (Inl e)
            | Some (Inr st) \<Rightarrow> Some (Inr (multiBlockResult st))))"

subsection \<open>The income rule in the words of the specification\<close>

text \<open>
  The closed form the specification gives for the income at an upgrade level: the
  absolute income when the upgrade declares one, and otherwise the base income plus the
  sum of \<^verbatim>\<open>additionalIncome\<close> over all upgrades of a level up to this one.
\<close>

definition upgradesOf :: "BuildingDefinition \<Rightarrow> BuildingUpgrade list" where
  "upgradesOf d = (case def_upgrades d of None \<Rightarrow> [] | Some ups \<Rightarrow> ups)"

definition specIncomeAtLevel :: "BuildingDefinition \<Rightarrow> BuildingUpgrade \<Rightarrow> int" where
  "specIncomeAtLevel d up =
     (case up_income up of
        Some x \<Rightarrow> x
      | None \<Rightarrow>
          baseIncomeOf d
          + sum_list (map (\<lambda>u. orZero (up_additionalIncome u))
                        (filter (\<lambda>u. up_level u \<le> up_level up) (upgradesOf d))))"

text \<open>
  The pruning order in the words of the specification: the score, plus \<open>10\<^sup>9\<close> when
  \<open>requiredMask > 0\<close> and the mask of the state equals \<open>requiredMask\<close>.
\<close>

definition specPruneScore :: "int \<Rightarrow> StateKey \<times> DpNode \<Rightarrow> int" where
  "specPruneScore requiredMask e =
     total (snd e)
     + (if requiredMask > 0 \<and> k_mask (fst e) = requiredMask then 1000000000 else 0)"

subsection \<open>Example catalogs\<close>

definition emptyDefinition :: "'u BuildingDefinitionOf" where
  "emptyDefinition =
     \<lparr>def_baseIncome = None, def_size = None, def_employees = None,
      def_peopleCapacity = None, def_storageCapacity = None, def_capacity = None,
      def_mandatory = None, def_baseCost = None, def_prefers = None, def_upgrades = None\<rparr>"

definition emptyUpgrade :: "int \<Rightarrow> BuildingUpgrade" where
  "emptyUpgrade lvl =
     \<lparr>up_level = lvl, up_income = None, up_additionalIncome = None, up_employees = None,
      up_peopleCapacity = None, up_storageCapacity = None, up_capacity = None,
      up_mandatory = None, up_cost = None, up_prefers = None\<rparr>"

definition defaultOptions :: Options where
  "defaultOptions = \<lparr>beamWidth = None, startingResources = None\<rparr>"

text \<open>A building with base income 10, an absolute income of 50 at level 2 and an
  increment of 5 at level 3.\<close>

definition mixedIncomeDefinition :: BuildingDefinition where
  "mixedIncomeDefinition =
     emptyDefinition\<lparr>def_baseIncome := Some 10,
       def_upgrades := Some [(emptyUpgrade 3)\<lparr>up_additionalIncome := Some 5\<rparr>,
                             (emptyUpgrade 2)\<lparr>up_income := Some 50\<rparr>]\<rparr>"

text \<open>One mandatory misc building of size 1 and income 0.\<close>

definition oneMandatoryMisc :: BuildingDefinitions where
  "oneMandatoryMisc =
     \<lparr>buildingTypes = [(''misc'', [(''M1'', emptyDefinition\<lparr>def_mandatory := Some True\<rparr>)])]\<rparr>"

definition woodOneOptions :: Options where
  "woodOneOptions =
     \<lparr>beamWidth = None,
      startingResources =
        Some \<lparr>res_money = 1000, res_wood = 1, res_cement = 100, res_steel = 100\<rparr>\<rparr>"

text \<open>One mandatory misc building of size 2.\<close>

definition oversizedMandatoryMisc :: BuildingDefinitions where
  "oversizedMandatoryMisc =
     \<lparr>buildingTypes =
        [(''misc'', [(''M1'', emptyDefinition\<lparr>def_mandatory := Some True,
                                               def_size := Some 2\<rparr>)])]\<rparr>"

text \<open>One mandatory misc building of size 1 with income 5.\<close>

definition profitableMandatoryMisc :: BuildingDefinitions where
  "profitableMandatoryMisc =
     \<lparr>buildingTypes =
        [(''misc'', [(''M1'', emptyDefinition\<lparr>def_mandatory := Some True,
                                               def_baseIncome := Some 5\<rparr>)])]\<rparr>"



text \<open>A house for four residents, a shop for four employees and a depot of income 1 that
  stores 50 units of wood.\<close>

definition townCatalog :: BuildingDefinitions where
  "townCatalog =
     \<lparr>buildingTypes =
        [(''house'', [(''Cottage'', emptyDefinition\<lparr>def_baseIncome := Some 2,
                         def_size := Some 2, def_peopleCapacity := Some 4\<rparr>)]),
         (''business'', [(''Shop'', emptyDefinition\<lparr>def_baseIncome := Some 10,
                         def_size := Some 2, def_employees := Some 4\<rparr>)]),
         (''storage'', [(''Depot'', emptyDefinition\<lparr>def_baseIncome := Some 1,
                         def_size := Some 1,
                         def_storageCapacity :=
                           Some (StorageObject (emptyCost\<lparr>wood := Some 50\<rparr>))\<rparr>)])]\<rparr>"

definition townContext :: DpContext where
  "townContext = mkContext (buildVariantsFromDefinitions townCatalog) 4 defaultOptions"

text \<open>A town of one house for four residents and one business for four employees, by the
  name of the business; its context at size limit 4; its two variants; and the state
  reached from the root by placing the house.\<close>

definition businessTown :: "string \<Rightarrow> BuildingDefinitions" where
  "businessTown businessName =
     \<lparr>buildingTypes =
        [(''house'', [(''Cottage'', emptyDefinition\<lparr>def_baseIncome := Some 2,
                         def_size := Some 2, def_peopleCapacity := Some 4\<rparr>)]),
         (''business'', [(businessName, emptyDefinition\<lparr>def_baseIncome := Some 10,
                         def_size := Some 2, def_employees := Some 4\<rparr>)])]\<rparr>"

definition businessTownContext :: "string \<Rightarrow> DpContext" where
  "businessTownContext businessName =
     mkContext (buildVariantsFromDefinitions (businessTown businessName)) 4 defaultOptions"

definition cottageVariant :: Variant where
  "cottageVariant = baseVariant ''house'' ''Cottage''
     (emptyDefinition\<lparr>def_baseIncome := Some 2, def_size := Some 2,
        def_peopleCapacity := Some 4\<rparr>)"

definition businessVariant :: "string \<Rightarrow> Variant" where
  "businessVariant businessName = baseVariant ''business'' businessName
     (emptyDefinition\<lparr>def_baseIncome := Some 10, def_size := Some 2, def_employees := Some 4\<rparr>)"

definition afterCottage :: "string \<Rightarrow> StateKey \<times> DpNode" where
  "afterCottage businessName =
     successor (businessTownContext businessName) 0 (initialKey DEFAULT_BASE_RESOURCES 1)
       (initialNode 1) 0 cottageVariant"

text \<open>The town with a beam of width 1, and a bucket of two states of which the second
  covers the mask 1.\<close>

definition townBeamOne :: DpContext where
  "townBeamOne =
     mkContext (buildVariantsFromDefinitions townCatalog) 4
       \<lparr>beamWidth = Some 1, startingResources = None\<rparr>"

definition exampleBucket :: Bucket where
  "exampleBucket =
     [(initialKey DEFAULT_BASE_RESOURCES 0, (initialNode 0)\<lparr>total := 7\<rparr>),
      ((initialKey DEFAULT_BASE_RESOURCES 0)\<lparr>k_mask := 1\<rparr>, (initialNode 0)\<lparr>total := 3\<rparr>)]"

definition shopVariant :: Variant where
  "shopVariant = baseVariant ''business'' ''Shop''
     (emptyDefinition\<lparr>def_baseIncome := Some 10, def_size := Some 2, def_employees := Some 4\<rparr>)"

subsection \<open>Notions the properties are stated with\<close>

text \<open>The states the transition engine can produce: the root, and every successor of such
  a state by a variant of the catalog.\<close>

inductive liveNode :: "DpContext \<Rightarrow> DpNode \<Rightarrow> bool" for cx :: DpContext where
  liveRoot: "liveNode cx (initialNode (length (cx_businessNames cx)))"
| liveSuccessor:
    "liveNode cx node \<Longrightarrow> v \<in> set (cx_variants cx)
     \<Longrightarrow> liveNode cx (snd (successor cx w key node i v))"

text \<open>The entry of a per-business array for the business of a variant, as the staffing
  filter reads it: \<^verbatim>\<open>typeof bi === "number" ? arr[bi] || 0 : 0\<close> with
  \<^verbatim>\<open>bi = businessIndex[v.name]\<close>.\<close>

definition atBusinessOf :: "DpContext \<Rightarrow> Variant \<Rightarrow> int list \<Rightarrow> int" where
  "atBusinessOf cx v arr =
     (case indexLookup (cx_businessNames cx) (v_name v) of
        Some b \<Rightarrow> nthOr0 arr b | None \<Rightarrow> 0)"

text \<open>The entry a per-business array holds for the business of a variant: the entry at the
  position of its name in \<^verbatim>\<open>businessNames\<close>, where the transitions accumulate it.\<close>

definition entryOfBusiness :: "DpContext \<Rightarrow> Variant \<Rightarrow> int list \<Rightarrow> int" where
  "entryOfBusiness cx v arr =
     (case indexOf (cx_businessNames cx) (v_name v) of
        Some b \<Rightarrow> nthOr0 arr b | None \<Rightarrow> 0)"

text \<open>The storage an item of a combination contributes on one axis: its storage capacity on
  that axis times its count when the capacity is object-shaped, nothing otherwise.\<close>

definition storageContributionOn :: "(ResourceCost \<Rightarrow> int option) \<Rightarrow> CombinationItem \<Rightarrow> int" where
  "storageContributionOn axis item =
     (case ci_storageCapacity item of
        StorageObject sc \<Rightarrow> orZero (axis sc) * ci_count item
      | StorageNumber _ \<Rightarrow> 0)"

text \<open>A state table whose buckets have pairwise different keys, as every \<^verbatim>\<open>Map\<close> has, and
  one whose buckets moreover hold at most \<open>beam\<close> entries.\<close>

definition distinctTable :: "DpMaps \<Rightarrow> bool" where
  "distinctTable dpMaps = list_all (\<lambda>m. distinct (map fst m)) dpMaps"

text \<open>What the transitions of one pass keep of the table \<open>dpMaps0\<close> the pass started with:
  the number of buckets, the distinct keys, every bucket that is not recorded in
  \<^verbatim>\<open>updatedIndices\<close>; and \<^verbatim>\<open>updatedIndices\<close>, a \<^verbatim>\<open>Set\<close>, holds indices of the table, each
  once.\<close>

definition unchangedOutside :: "DpMaps \<Rightarrow> DpMaps \<times> nat list \<Rightarrow> bool" where
  "unchangedOutside dpMaps0 st =
     (length (fst st) = length dpMaps0 \<and> distinctTable (fst st)
      \<and> distinct (snd st) \<and> list_all (\<lambda>j. j < length dpMaps0) (snd st)
      \<and> (\<forall>j. j \<notin> set (snd st) \<longrightarrow> fst st ! j = dpMaps0 ! j))"

definition boundedTable :: "int \<Rightarrow> DpMaps \<Rightarrow> bool" where
  "boundedTable beam dpMaps =
     list_all (\<lambda>m. distinct (map fst m) \<and> int (length m) \<le> beam) dpMaps"

text \<open>The storage the combinations of a list of blocks contribute, axis by axis.\<close>

definition accountedStorage :: "BlockEntry list \<Rightarrow> Resources" where
  "accountedStorage bs =
     \<lparr>res_money = sum_list (map (\<lambda>b. sum_list (map (storageContributionOn money) (blockCombination b))) bs),
      res_wood = sum_list (map (\<lambda>b. sum_list (map (storageContributionOn wood) (blockCombination b))) bs),
      res_cement = sum_list (map (\<lambda>b. sum_list (map (storageContributionOn cement) (blockCombination b))) bs),
      res_steel = sum_list (map (\<lambda>b. sum_list (map (storageContributionOn steel) (blockCombination b))) bs)\<rparr>"

text \<open>The size of a combination: the sum of size times count over its items.\<close>

definition combinationSize :: "CombinationItem list \<Rightarrow> int" where
  "combinationSize items = sum_list (map (\<lambda>item. ci_size item * ci_count item) items)"

subsection \<open>Store-level account of the catalog copy\<close>

text \<open>
  The multi-block driver assigns to the \<^verbatim>\<open>mandatory\<close> fields of building definitions and
  of upgrades. To say which objects these assignments reach, the definitions and the
  upgrades live in a store: an address is an index into a list of objects, and a fresh
  object is appended. The two levels of dictionaries, which the code never writes, stay
  values that hold the addresses of the definitions. The optimizer and the expander only
  read the catalog; they run on the value read from the store.
\<close>

type_synonym addr = nat

datatype StoreObject =
  DefinitionAt "addr BuildingDefinitionOf"
| UpgradeAt BuildingUpgrade

type_synonym Store = "StoreObject list"

record CatalogRef =
  ref_buildingTypes :: "(string \<times> (string \<times> addr) list) list"

definition objectAt :: "Store \<Rightarrow> addr \<Rightarrow> StoreObject option" where
  "objectAt h a = (if a < length h then Some (h ! a) else None)"

definition definitionAt :: "Store \<Rightarrow> addr \<Rightarrow> addr BuildingDefinitionOf" where
  "definitionAt h a =
     (case objectAt h a of Some (DefinitionAt c) \<Rightarrow> c | _ \<Rightarrow> emptyDefinition)"

definition upgradeAt :: "Store \<Rightarrow> addr \<Rightarrow> BuildingUpgrade" where
  "upgradeAt h a = (case objectAt h a of Some (UpgradeAt u) \<Rightarrow> u | _ \<Rightarrow> emptyUpgrade 0)"

text \<open>The catalog value a reference denotes in a store.\<close>

definition readDefinition :: "Store \<Rightarrow> addr \<Rightarrow> BuildingDefinition" where
  "readDefinition h a =
     (let c = definitionAt h a
      in \<lparr>def_baseIncome = def_baseIncome c, def_size = def_size c,
          def_employees = def_employees c, def_peopleCapacity = def_peopleCapacity c,
          def_storageCapacity = def_storageCapacity c, def_capacity = def_capacity c,
          def_mandatory = def_mandatory c, def_baseCost = def_baseCost c,
          def_prefers = def_prefers c,
          def_upgrades = map_option (map (upgradeAt h)) (def_upgrades c)\<rparr>)"

definition readDefs :: "Store \<Rightarrow> CatalogRef \<Rightarrow> BuildingDefinitions" where
  "readDefs h r =
     \<lparr>buildingTypes =
        map (\<lambda>tg. (fst tg, map (\<lambda>na. (fst na, readDefinition h (snd na))) (snd tg)))
          (ref_buildingTypes r)\<rparr>"

text \<open>\<^verbatim>\<open>JSON.parse(JSON.stringify(defs))\<close>: every definition and every upgrade is copied
  into a fresh object.\<close>

definition allocate :: "Store \<Rightarrow> StoreObject \<Rightarrow> Store \<times> addr" where
  "allocate h obj = (h @ [obj], length h)"

fun cloneUpgrades :: "Store \<Rightarrow> addr list \<Rightarrow> Store \<times> addr list" where
  "cloneUpgrades h [] = (h, [])"
| "cloneUpgrades h (a # as) =
     (let p = allocate h (UpgradeAt (upgradeAt h a));
          q = cloneUpgrades (fst p) as
      in (fst q, snd p # snd q))"

definition cloneDefinition :: "Store \<Rightarrow> addr \<Rightarrow> Store \<times> addr" where
  "cloneDefinition h a =
     (let c = definitionAt h a
      in case def_upgrades c of
           None \<Rightarrow> allocate h (DefinitionAt c)
         | Some ups \<Rightarrow>
             (let p = cloneUpgrades h ups
              in allocate (fst p) (DefinitionAt (c\<lparr>def_upgrades := Some (snd p)\<rparr>))))"

fun cloneGroup :: "Store \<Rightarrow> (string \<times> addr) list \<Rightarrow> Store \<times> (string \<times> addr) list" where
  "cloneGroup h [] = (h, [])"
| "cloneGroup h (na # rest) =
     (let p = cloneDefinition h (snd na);
          q = cloneGroup (fst p) rest
      in (fst q, (fst na, snd p) # snd q))"

fun cloneTypes ::
  "Store \<Rightarrow> (string \<times> (string \<times> addr) list) list
   \<Rightarrow> Store \<times> (string \<times> (string \<times> addr) list) list" where
  "cloneTypes h [] = (h, [])"
| "cloneTypes h (tg # rest) =
     (let p = cloneGroup h (snd tg);
          q = cloneTypes (fst p) rest
      in (fst q, (fst tg, snd p) # snd q))"

definition jsonClone :: "Store \<Rightarrow> CatalogRef \<Rightarrow> Store \<times> CatalogRef" where
  "jsonClone h r =
     (let p = cloneTypes h (ref_buildingTypes r)
      in (fst p, \<lparr>ref_buildingTypes = snd p\<rparr>))"

text \<open>The assignments \<^verbatim>\<open>building.mandatory = false\<close> and \<^verbatim>\<open>up.mandatory = false\<close>.\<close>

definition setDefinitionMandatoryFalse :: "Store \<Rightarrow> addr \<Rightarrow> Store" where
  "setDefinitionMandatoryFalse h a =
     (case objectAt h a of
        Some (DefinitionAt c) \<Rightarrow> h[a := DefinitionAt (c\<lparr>def_mandatory := Some False\<rparr>)]
      | _ \<Rightarrow> h)"

definition setUpgradeMandatoryFalse :: "addr \<Rightarrow> Store \<Rightarrow> Store" where
  "setUpgradeMandatoryFalse a h =
     (case objectAt h a of
        Some (UpgradeAt u) \<Rightarrow> h[a := UpgradeAt (u\<lparr>up_mandatory := Some False\<rparr>)]
      | _ \<Rightarrow> h)"

definition stripBuildingInStore :: "string \<times> addr \<Rightarrow> Store \<Rightarrow> Store" where
  "stripBuildingInStore na h =
     (let h1 = setDefinitionMandatoryFalse h (snd na)
      in case def_upgrades (definitionAt h1 (snd na)) of
           None \<Rightarrow> h1
         | Some ups \<Rightarrow> fold setUpgradeMandatoryFalse ups h1)"

definition stripLastInStore :: "Store \<Rightarrow> CatalogRef \<Rightarrow> Store" where
  "stripLastInStore h r =
     (case map_of (ref_buildingTypes r) ''misc'' of
        None \<Rightarrow> h
      | Some misc \<Rightarrow> fold stripBuildingInStore misc h)"

definition stripOtherInStore :: "Store \<Rightarrow> CatalogRef \<Rightarrow> Store" where
  "stripOtherInStore h r =
     fold (\<lambda>tg s. if fst tg = ''misc'' then fold stripBuildingInStore (snd tg) s else s)
       (ref_buildingTypes r) h"

text \<open>The preparation of \<^verbatim>\<open>modifiedDefs\<close> for one block: the copy, then the assignments
  on the copy.\<close>

definition prepareModifiedDefs :: "bool \<Rightarrow> Store \<Rightarrow> CatalogRef \<Rightarrow> Store \<times> CatalogRef" where
  "prepareModifiedDefs isLastBlock h defs =
     (let p = jsonClone h defs
      in (if isLastBlock then stripLastInStore (fst p) (snd p)
          else stripOtherInStore (fst p) (snd p),
          snd p))"

text \<open>The driver with the store threaded through the loop over the blocks. \<^verbatim>\<open>defs\<close> is
  read in the store of the moment it is used.\<close>

fun blocksLoopInStore ::
  "CatalogRef \<Rightarrow> int \<Rightarrow> int \<Rightarrow> int option \<Rightarrow> Variant list \<Rightarrow> nat list \<Rightarrow> Store \<Rightarrow> DriverState
   \<Rightarrow> (Failure + DriverState) option \<times> Store" where
  "blocksLoopInStore defs numBlocks sizeLimit beam mandatory [] h st = (Some (Inr st), h)"
| "blocksLoopInStore defs numBlocks sizeLimit beam mandatory (blockIdx # rest) h st =
     (let p = prepareModifiedDefs (int blockIdx = numBlocks - 1) h defs
      in case runBlockWith numBlocks sizeLimit beam mandatory blockIdx
                (readDefs (fst p) (snd p)) st of
           None \<Rightarrow> (None, fst p)
         | Some (Inl e) \<Rightarrow> (Some (Inl e), fst p)
         | Some (Inr st') \<Rightarrow>
             blocksLoopInStore defs numBlocks sizeLimit beam mandatory rest (fst p) st')"

definition optimizeMultipleBlocksInStore ::
  "Store \<Rightarrow> CatalogRef \<Rightarrow> int \<Rightarrow> int \<Rightarrow> int option
   \<Rightarrow> (Failure + MultiBlockResult) option \<times> Store" where
  "optimizeMultipleBlocksInStore h defs numBlocks sizeLimit beam =
     (if numBlocks < 1 then (Some (Inl InvalidArgument), h)
      else if numBlocks = 1
      then (case optimizeBlockIncomeFromDefinitions (readDefs h defs) sizeLimit
                   \<lparr>beamWidth = beam, startingResources = None\<rparr> of
              None \<Rightarrow> (None, h)
            | Some (Inl e) \<Rightarrow> (Some (Inl e), h)
            | Some (Inr result) \<Rightarrow> (Some (Inr (singleBlockResult result)), h))
      else (let p = blocksLoopInStore defs numBlocks sizeLimit beam
                      (mandatoryMiscBuildingsOf (readDefs h defs))
                      [0..<nat numBlocks] h initialDriverState
            in case fst p of
                 None \<Rightarrow> (None, snd p)
               | Some (Inl e) \<Rightarrow> (Some (Inl e), snd p)
               | Some (Inr st) \<Rightarrow> (Some (Inr (multiBlockResult st)), snd p)))"

text \<open>A store that holds one mandatory misc building with a mandatory upgrade, and a house.\<close>

definition exampleStore :: Store where
  "exampleStore =
     [UpgradeAt ((emptyUpgrade 2)\<lparr>up_mandatory := Some True, up_additionalIncome := Some 1\<rparr>),
      DefinitionAt (emptyDefinition\<lparr>def_mandatory := Some True, def_upgrades := Some [0]\<rparr>),
      DefinitionAt (emptyDefinition\<lparr>def_baseIncome := Some 2, def_peopleCapacity := Some 4\<rparr>)]"

definition exampleRef :: CatalogRef where
  "exampleRef =
     \<lparr>ref_buildingTypes = [(''misc'', [(''M1'', 1)]), (''house'', [(''Cottage'', 2)])]\<rparr>"

text \<open>The addresses an object of the store holds, and a store whose objects from address
  \<open>n\<close> on hold no address below \<open>n\<close>.\<close>

definition upgradeAddrs :: "StoreObject \<Rightarrow> addr list" where
  "upgradeAddrs obj =
     (case obj of
        DefinitionAt c \<Rightarrow> (case def_upgrades c of None \<Rightarrow> [] | Some ups \<Rightarrow> ups)
      | UpgradeAt u \<Rightarrow> [])"

definition freshAbove :: "nat \<Rightarrow> Store \<Rightarrow> bool" where
  "freshAbove n h = list_all (\<lambda>obj. list_all (\<lambda>u. n \<le> u) (upgradeAddrs obj)) (drop n h)"

definition freshRef :: "nat \<Rightarrow> (string \<times> (string \<times> addr) list) list \<Rightarrow> bool" where
  "freshRef n types = list_all (\<lambda>tg. list_all (\<lambda>na. n \<le> snd na) (snd tg)) types"

text \<open>Two stores of the same size that agree below address \<open>n\<close>, the second with no address
  below \<open>n\<close> held from \<open>n\<close> on; and a store that extends another one and leaves the
  objects of that one as they are.\<close>

definition sameBelow :: "nat \<Rightarrow> Store \<Rightarrow> Store \<Rightarrow> bool" where
  "sameBelow n h h' = (take n h' = take n h \<and> length h' = length h \<and> freshAbove n h')"

definition extendsStore :: "Store \<Rightarrow> Store \<Rightarrow> bool" where
  "extendsStore h h' = (length h \<le> length h' \<and> take (length h) h' = h)"

text \<open>A catalog whose definitions and upgrades are objects of the store: a JavaScript value
  holds no dangling reference.\<close>

definition closedCatalog :: "Store \<Rightarrow> CatalogRef \<Rightarrow> bool" where
  "closedCatalog h r =
     list_all (\<lambda>tg. list_all (\<lambda>na. snd na < length h
                    \<and> list_all (\<lambda>u. u < length h) (upgradeAddrs (DefinitionAt (definitionAt h (snd na)))))
                 (snd tg))
       (ref_buildingTypes r)"

section \<open>Properties\<close>

subsection \<open>Catalog expander\<close>

lemma upgradeLoop_length:
  "length (upgradeLoop t n d acc w ups) = length ups"
  by (induction ups arbitrary: acc w) (simp_all add: Let_def)

lemma upgradeLoop_nth_income:
  "i < length ups \<Longrightarrow>
     v_income (upgradeLoop t n d acc w ups ! i)
       = fold (\<lambda>up a. nextIncome a up) (take (Suc i) ups) acc"
proof (induction ups arbitrary: acc w i)
  case Nil
  then show ?case by simp
next
  case (Cons up ups)
  show ?case
  proof (cases i)
    case 0
    then show ?thesis by (simp add: Let_def upgradeVariant_def)
  next
    case (Suc j)
    with Cons.prems have "j < length ups" by simp
    from Cons.IH [OF this] Suc show ?thesis by (simp add: Let_def)
  qed
qed

lemma upgradeLoop_nth_level:
  "i < length ups \<Longrightarrow> v_level (upgradeLoop t n d acc w ups ! i) = up_level (ups ! i)"
proof (induction ups arbitrary: acc w i)
  case Nil
  then show ?case by simp
next
  case (Cons up ups)
  then show ?case
    by (cases i) (simp_all add: Let_def upgradeVariant_def)
qed

lemma variant_income_prefix:
  "i \<le> length (sortedUpgrades d) \<Longrightarrow>
     v_income (variantsOfBuilding t n d ! i)
       = fold (\<lambda>up a. nextIncome a up) (take i (sortedUpgrades d)) (baseIncomeOf d)"
proof (cases i)
  case 0
  then show ?thesis by (simp add: variantsOfBuilding_def baseVariant_def)
next
  case (Suc j)
  assume "i \<le> length (sortedUpgrades d)"
  with Suc have "j < length (sortedUpgrades d)" by simp
  with Suc show ?thesis
    by (simp add: variantsOfBuilding_def upgradeLoop_nth_income del: take_Suc_Cons)
qed

lemma fold_nextIncome_incremental:
  "\<forall>u \<in> set ups. up_income u = None \<Longrightarrow>
     fold (\<lambda>up a. nextIncome a up) ups acc
       = acc + sum_list (map (\<lambda>u. orZero (up_additionalIncome u)) ups)"
  by (induction ups arbitrary: acc) (simp_all add: nextIncome_def)

text \<open>
  What the expander computes. The upgrades are processed in ascending level order. The
  variant of the upgrade in position \<open>i\<close> of that order has the upgrade's absolute income
  when it declares one; otherwise its income is the income of the preceding level (the
  base income for the first upgrade) plus \<^verbatim>\<open>additionalIncome\<close>, 0 when absent. When no
  upgrade up to that level declares an absolute income, this is the base income plus the
  sum of the increments up to that level.
\<close>

lemma upgrade_income_recurrence:
  assumes "i < length (sortedUpgrades d)"
  shows "sorted (map up_level (sortedUpgrades d))
    \<and> v_level (variantsOfBuilding t n d ! Suc i) = up_level (sortedUpgrades d ! i)
    \<and> v_income (variantsOfBuilding t n d ! Suc i)
        = (case up_income (sortedUpgrades d ! i) of
             Some x \<Rightarrow> x
           | None \<Rightarrow> v_income (variantsOfBuilding t n d ! i)
                       + orZero (up_additionalIncome (sortedUpgrades d ! i)))
    \<and> ((\<forall>k \<le> i. up_income (sortedUpgrades d ! k) = None) \<longrightarrow>
         v_income (variantsOfBuilding t n d ! Suc i)
           = baseIncomeOf d
             + sum_list (map (\<lambda>u. orZero (up_additionalIncome u))
                           (take (Suc i) (sortedUpgrades d))))"
proof -
  let ?s = "sortedUpgrades d"
  let ?step = "\<lambda>up a. nextIncome a up"
  have sorted: "sorted (map up_level ?s)"
    by (simp add: sortedUpgrades_def)
  have level: "v_level (variantsOfBuilding t n d ! Suc i) = up_level (?s ! i)"
    using assms by (simp add: variantsOfBuilding_def upgradeLoop_nth_level)
  have prev: "v_income (variantsOfBuilding t n d ! i) = fold ?step (take i ?s) (baseIncomeOf d)"
    using assms by (intro variant_income_prefix) simp
  have cur: "v_income (variantsOfBuilding t n d ! Suc i)
               = fold ?step (take (Suc i) ?s) (baseIncomeOf d)"
    using assms by (intro variant_income_prefix) simp
  have split: "take (Suc i) ?s = take i ?s @ [?s ! i]"
    using assms by (rule take_Suc_conv_app_nth)
  have rec: "v_income (variantsOfBuilding t n d ! Suc i)
               = nextIncome (v_income (variantsOfBuilding t n d ! i)) (?s ! i)"
    unfolding cur prev split by simp
  have closed: "v_income (variantsOfBuilding t n d ! Suc i)
                  = baseIncomeOf d
                    + sum_list (map (\<lambda>u. orZero (up_additionalIncome u)) (take (Suc i) ?s))"
    if none: "\<forall>k \<le> i. up_income (?s ! k) = None"
  proof -
    have "\<forall>u \<in> set (take (Suc i) ?s). up_income u = None"
    proof
      fix u
      assume "u \<in> set (take (Suc i) ?s)"
      then obtain k where "k < length (take (Suc i) ?s)" "take (Suc i) ?s ! k = u"
        by (auto simp: in_set_conv_nth)
      with assms have "k \<le> i" "u = ?s ! k" by auto
      with none show "up_income u = None" by simp
    qed
    from fold_nextIncome_incremental [OF this] show ?thesis
      unfolding cur .
  qed
  from sorted level rec closed show ?thesis
    by (auto simp: nextIncome_def split: option.splits)
qed

lemma upgrade_income_recurrence_example:
  "v_level (variantsOfBuilding ''house'' ''Cottage'' mixedIncomeDefinition ! 2) = 3
   \<and> v_income (variantsOfBuilding ''house'' ''Cottage'' mixedIncomeDefinition ! 1) = 50
   \<and> v_income (variantsOfBuilding ''house'' ''Cottage'' mixedIncomeDefinition ! 2) = 55"
proof -
  have s: "sortedUpgrades mixedIncomeDefinition
             = [(emptyUpgrade 2)\<lparr>up_income := Some 50\<rparr>,
                (emptyUpgrade 3)\<lparr>up_additionalIncome := Some 5\<rparr>]"
    by (simp add: sortedUpgrades_def mixedIncomeDefinition_def emptyDefinition_def
        emptyUpgrade_def)
  have len: "(0::nat) < length (sortedUpgrades mixedIncomeDefinition)"
    "(1::nat) < length (sortedUpgrades mixedIncomeDefinition)"
    by (simp_all add: s)
  from upgrade_income_recurrence [OF len(1), of "''house''" "''Cottage''"]
       upgrade_income_recurrence [OF len(2), of "''house''" "''Cottage''"]
  show ?thesis
    by (simp add: s emptyUpgrade_def orZero_def numeral_2_eq_2)
qed

text \<open>
  C6. The rule documented with the catalog types reads: the income at level \<open>L\<close> is
  \<^verbatim>\<open>baseIncome\<close> plus the sum of \<^verbatim>\<open>additionalIncome\<close> over the upgrades of level at most
  \<open>L\<close>, and an absolute \<^verbatim>\<open>income\<close> overrides the accumulation for that level. The expander
  departs from it on a building that mixes the two formats: with base income 10, the
  absolute income 50 at level 2 and the increment 5 at level 3, the variant of level 3 has
  income 55, where the rule gives 10 + 5 = 15. The absolute income of level 2 is written
  into the running accumulator and carried to every later level.
\<close>

theorem upgrade_income_departs_from_documented_sum:
  "map v_level (variantsOfBuilding ''house'' ''Cottage'' mixedIncomeDefinition) = [1, 2, 3]
   \<and> map v_income (variantsOfBuilding ''house'' ''Cottage'' mixedIncomeDefinition)
       = [10, 50, 55]
   \<and> map (specIncomeAtLevel mixedIncomeDefinition) (sortedUpgrades mixedIncomeDefinition)
       = [50, 15]"
  by code_simp

subsection \<open>Failures of the optimizer\<close>

















subsection \<open>Beam pruner\<close>

lemma kept_entries_by_key:
  assumes d: "distinct (map fst m)" and sub: "set K \<subseteq> set m" and e: "e \<in> set m"
  shows "fst e \<in> set (map fst K) \<longleftrightarrow> e \<in> set K"
proof
  assume "fst e \<in> set (map fst K)"
  then obtain e' where e': "e' \<in> set K" and k: "fst e' = fst e" by auto
  from e' sub have "e' \<in> set m" by blast
  with d e k have "e' = e"
    by (metis eq_key_imp_eq_value prod.collapse)
  with e' show "e \<in> set K" by simp
next
  assume "e \<in> set K"
  then show "fst e \<in> set (map fst K)" by simp
qed

lemma filter_kept_length:
  assumes "distinct m" and "distinct K" and "set K \<subseteq> set m"
  shows "length (filter (\<lambda>e. e \<in> set K) m) = length K"
proof -
  have "length (filter (\<lambda>e. e \<in> set K) m) = card ({e. e \<in> set K} \<inter> set m)"
    using assms(1) by (rule distinct_length_filter)
  also have "{e. e \<in> set K} \<inter> set m = set K"
    using assms(3) by blast
  also have "card (set K) = length K"
    using assms(2) by (rule distinct_card)
  finally show ?thesis .
qed

lemma pruneMapToBeam_unchanged:
  "int (length m) \<le> beam \<Longrightarrow> pruneMapToBeam rm m beam = m"
  by (simp add: pruneMapToBeam_def)

lemma pruneMapToBeam_filter:
  assumes d: "distinct (map fst m)" and big: "beam < int (length m)" and nn: "0 \<le> beam"
  shows "pruneMapToBeam rm m beam
           = filter (\<lambda>e. e \<in> set (take (nat beam) (sort_key (\<lambda>e. - pruneScore rm e) m))) m"
proof -
  let ?arr = "sort_key (\<lambda>e. - pruneScore rm e) m"
  let ?K = "take (nat beam) ?arr"
  have sub: "set ?K \<subseteq> set m"
    using set_take_subset [of "nat beam" ?arr] by simp
  have "filter (\<lambda>e. fst e \<in> set (map fst ?K)) m = filter (\<lambda>e. e \<in> set ?K) m"
    by (rule filter_cong [OF refl]) (rule kept_entries_by_key [OF d sub])
  with big nn show ?thesis
    by (simp add: pruneMapToBeam_def Let_def jsSliceFromZero_def)
qed

lemma pruneMapToBeam_length:
  assumes d: "distinct (map fst m)" and nn: "0 \<le> beam"
  shows "length (pruneMapToBeam rm m beam) = min (length m) (nat beam)"
proof (cases "int (length m) \<le> beam")
  case True
  then show ?thesis by (simp add: pruneMapToBeam_unchanged)
next
  case False
  let ?arr = "sort_key (\<lambda>e. - pruneScore rm e) m"
  let ?K = "take (nat beam) ?arr"
  from d have dm: "distinct m" by (simp add: distinct_map)
  then have "distinct ?arr" by simp
  then have dK: "distinct ?K" by simp
  have sub: "set ?K \<subseteq> set m"
    using set_take_subset [of "nat beam" ?arr] by simp
  from False nn have "length ?K = nat beam" by simp
  with filter_kept_length [OF dm dK sub] pruneMapToBeam_filter [OF d _ nn, of rm] False
  show ?thesis by simp
qed

lemma pruneMapToBeam_subset: "set (pruneMapToBeam rm m beam) \<subseteq> set m"
  by (auto simp: pruneMapToBeam_def Let_def)

lemma pruneMapToBeam_distinct:
  "distinct (map fst m) \<Longrightarrow> distinct (map fst (pruneMapToBeam rm m beam))"
  by (simp add: pruneMapToBeam_def Let_def distinct_map_filter)

lemma pruneMapToBeam_top:
  assumes d: "distinct (map fst m)" and nn: "0 \<le> beam"
    and kept: "e \<in> set (pruneMapToBeam rm m beam)"
    and dropped: "e' \<in> set m" "e' \<notin> set (pruneMapToBeam rm m beam)"
  shows "pruneScore rm e' \<le> pruneScore rm e"
proof (cases "int (length m) \<le> beam")
  case True
  with dropped show ?thesis by (simp add: pruneMapToBeam_unchanged)
next
  case False
  let ?f = "\<lambda>e. - pruneScore rm e"
  let ?arr = "sort_key ?f m"
  let ?K = "take (nat beam) ?arr"
  from False have big: "beam < int (length m)" by simp
  note eq = pruneMapToBeam_filter [OF d big nn, of rm]
  from kept eq have eK: "e \<in> set ?K" by simp
  from dropped eq have "e' \<notin> set ?K" by simp
  moreover have "set ?arr = set ?K \<union> set (drop (nat beam) ?arr)"
    by (metis append_take_drop_id set_append)
  moreover from dropped(1) have "e' \<in> set ?arr" by simp
  ultimately have eD: "e' \<in> set (drop (nat beam) ?arr)" by blast
  have "sorted (map ?f ?arr)" by simp
  then have "sorted (map ?f ?K @ map ?f (drop (nat beam) ?arr))"
    by (simp only: map_append [symmetric] append_take_drop_id)
  then have ord: "x \<le> y"
    if "x \<in> set (map ?f ?K)" and "y \<in> set (map ?f (drop (nat beam) ?arr))" for x y
    using that unfolding sorted_append by blast
  have "?f e \<in> set (map ?f ?K)"
    unfolding set_map using eK by (intro image_eqI [where x = e]) simp_all
  moreover have "?f e' \<in> set (map ?f (drop (nat beam) ?arr))"
    unfolding set_map using eD by (intro image_eqI [where x = e']) simp_all
  ultimately have "?f e \<le> ?f e'" by (rule ord)
  then show ?thesis by simp
qed


lemma foldE_invariant:
  assumes "foldE f xs s = Inr s'" and "P s"
    and "\<And>x s s'. P s \<Longrightarrow> f x s = Inr s' \<Longrightarrow> P s'"
  shows "P s'"
  using assms(1,2)
proof (induction xs arbitrary: s)
  case Nil
  then show ?case by simp
next
  case (Cons x xs)
  show ?case
  proof (cases "f x s")
    case (Inl e)
    with Cons.prems(1) show ?thesis by simp
  next
    case (Inr s1)
    with Cons.prems(1) have rest: "foldE f xs s1 = Inr s'" by simp
    from assms(3) [OF Cons.prems(2) Inr] have "P s1" .
    from Cons.IH [OF rest this] show ?thesis .
  qed
qed

lemma list_all_update:
  "list_all P xs \<Longrightarrow> P y \<Longrightarrow> list_all P (xs[i := y])"
proof -
  assume a: "list_all P xs" and y: "P y"
  have "set (xs[i := y]) \<subseteq> insert y (set xs)" by (rule set_update_subset_insert)
  with a y show ?thesis unfolding list_all_iff by blast
qed

lemma stored_unchangedOutside:
  assumes inv: "unchangedOutside dpMaps0 (dpMaps, upd)" and n: "n < length dpMaps"
  shows "unchangedOutside dpMaps0
           (dpMaps[n := AList.update k nd (dpMaps ! n)],
            if n \<in> set upd then upd else upd @ [n])"
proof -
  from inv have len: "length dpMaps = length dpMaps0" and dt: "distinctTable dpMaps"
    and du: "distinct upd" and iu: "list_all (\<lambda>j. j < length dpMaps0) upd"
    and same: "\<And>j. j \<notin> set upd \<Longrightarrow> dpMaps ! j = dpMaps0 ! j"
    by (simp_all add: unchangedOutside_def)
  from du have du': "distinct (if n \<in> set upd then upd else upd @ [n])"
    by simp
  from iu n len have iu': "list_all (\<lambda>j. j < length dpMaps0)
      (if n \<in> set upd then upd else upd @ [n])"
    by simp
  from dt n have "distinct (map fst (dpMaps ! n))"
    by (simp add: distinctTable_def list_all_length)
  then have "distinct (map fst (AList.update k nd (dpMaps ! n)))"
    by (rule distinct_update)
  with dt have dt': "distinctTable (dpMaps[n := AList.update k nd (dpMaps ! n)])"
    unfolding distinctTable_def by (rule list_all_update)
  have same': "dpMaps[n := AList.update k nd (dpMaps ! n)] ! j = dpMaps0 ! j"
    if "j \<notin> set (if n \<in> set upd then upd else upd @ [n])" for j
  proof -
    from that have "j \<noteq> n" and "j \<notin> set upd" by (auto split: if_splits)
    then show ?thesis by (simp add: same)
  qed
  from len dt' du' iu' same' show ?thesis
    unfolding unchangedOutside_def fst_conv snd_conv length_list_update by blast
qed

lemma insertSuccessor_unchangedOutside:
  assumes "unchangedOutside dpMaps0 st" and "insertSuccessor nw k nd st = Inr st'"
  shows "unchangedOutside dpMaps0 st'"
proof (cases "nw < 0 \<or> nw \<ge> int (length (fst st))")
  case True
  with assms(2) show ?thesis by (simp add: insertSuccessor_def Let_def)
next
  case False
  then have n: "nat nw < length (fst st)" by linarith
  from assms(1) have inv: "unchangedOutside dpMaps0 (fst st, snd st)" by simp
  note stored = stored_unchangedOutside [OF inv n, of k nd]
  from assms(2) False have "st' = st \<or> st' = ((fst st)[nat nw := AList.update k nd (fst st ! nat nw)],
            if nat nw \<in> set (snd st) then snd st else snd st @ [nat nw])"
    by (auto simp: insertSuccessor_def Let_def split: option.splits if_splits)
  with stored assms(1) show ?thesis by auto
qed

lemma dpTransition_unchangedOutside:
  assumes "unchangedOutside dpMaps0 st" and "dpTransition cx w key node iv st = Inr st'"
  shows "unchangedOutside dpMaps0 st'"
proof -
  from assms(2) have "st' = st
      \<or> insertSuccessor (int w + v_size (snd iv))
           (fst (successor cx w key node (fst iv) (snd iv)))
           (snd (successor cx w key node (fst iv) (snd iv))) st = Inr st'"
    by (simp add: dpTransition_def Let_def split: if_splits)
  with assms(1) show ?thesis
    by (auto intro: insertSuccessor_unchangedOutside)
qed

lemma dpExpandEntry_unchangedOutside:
  assumes "unchangedOutside dpMaps0 st" and "dpExpandEntry cx w en st = Inr st'"
  shows "unchangedOutside dpMaps0 st'"
  using assms(2) assms(1) unfolding dpExpandEntry_def
  by (rule foldE_invariant) (rule dpTransition_unchangedOutside)

lemma dpExpandBucket_unchangedOutside:
  assumes "distinctTable dpMaps" and "dpExpandBucket cx w dpMaps = Inr st"
  shows "unchangedOutside dpMaps st"
proof -
  from assms(1) have start: "unchangedOutside dpMaps (dpMaps, [])"
    by (simp add: unchangedOutside_def)
  from assms(2) start show ?thesis
    unfolding dpExpandBucket_def
    by (rule foldE_invariant) (rule dpExpandEntry_unchangedOutside)
qed


lemma jsShiftLeftOne_range: "1 \<le> jsShiftLeftOne i \<or> jsShiftLeftOne i = - 2147483648"
proof -
  have "list_all (\<lambda>k. 1 \<le> sint (push_bit k (1 :: 32 word))
          \<or> sint (push_bit k (1 :: 32 word)) = - 2147483648) [0..<32]"
    by code_simp
  moreover have "i mod 32 \<in> set [0..<32]"
    by simp
  ultimately show ?thesis
    unfolding jsShiftLeftOne_def list_all_iff by blast
qed

lemma requiredMaskOf_range:
  "0 \<le> requiredMaskOf miscNames \<or> requiredMaskOf miscNames = - 2147483649"
  using jsShiftLeftOne_range [of "length miscNames"]
  by (auto simp: requiredMaskOf_def)

lemma pruneScore_spec:
  assumes "- 2147483648 \<le> k_mask (fst e)"
  shows "pruneScore (requiredMaskOf miscNames) e = specPruneScore (requiredMaskOf miscNames) e"
  using requiredMaskOf_range [of miscNames] assms
  by (auto simp: pruneScore_def specPruneScore_def)

lemma pruneUpdated_length: "length (pruneUpdated cx upd m) = length m"
  unfolding pruneUpdated_def by (induction upd arbitrary: m) simp_all

lemma pruneUpdated_nth:
  assumes "distinct upd" and "j < length m"
  shows "pruneUpdated cx upd m ! j =
           (if j \<in> set upd then pruneMapToBeam (cx_requiredMask cx) (m ! j) (cx_beam cx)
            else m ! j)"
  using assms unfolding pruneUpdated_def
proof (induction upd arbitrary: m)
  case Nil
  show ?case by simp
next
  case (Cons a upd)
  let ?P = "\<lambda>b. pruneMapToBeam (cx_requiredMask cx) b (cx_beam cx)"
  let ?m = "m[a := ?P (m ! a)]"
  from Cons.prems have d: "distinct upd" and a: "a \<notin> set upd" and j: "j < length ?m"
    by simp_all
  note IH = Cons.IH [OF d j]
  show ?case
  proof (cases "j = a")
    case True
    with a Cons.prems(2) IH show ?thesis by simp
  next
    case False
    with IH show ?thesis by simp
  qed
qed

lemma dpPass_pruned:
  assumes nn: "0 \<le> cx_beam cx" and dt: "distinctTable dpMaps"
    and ex: "dpExpandBucket cx w dpMaps = Inr st" and j: "j \<in> set (snd st)"
  shows "j < length (pruneUpdated cx (snd st) (fst st))
       \<and> pruneUpdated cx (snd st) (fst st) ! j
           = pruneMapToBeam (cx_requiredMask cx) (fst st ! j) (cx_beam cx)
       \<and> int (length (pruneUpdated cx (snd st) (fst st) ! j)) \<le> cx_beam cx"
proof -
  from dpExpandBucket_unchangedOutside [OF dt ex]
  have len: "length (fst st) = length dpMaps" and dt': "distinctTable (fst st)"
    and du: "distinct (snd st)" and iu: "list_all (\<lambda>j. j < length dpMaps) (snd st)"
    by (simp_all add: unchangedOutside_def)
  from iu j len have jl: "j < length (fst st)"
    unfolding list_all_iff by simp
  from dt' jl have dj: "distinct (map fst (fst st ! j))"
    by (simp add: distinctTable_def list_all_length)
  from pruneUpdated_nth [OF du jl, of cx] j
  have eq: "pruneUpdated cx (snd st) (fst st) ! j
      = pruneMapToBeam (cx_requiredMask cx) (fst st ! j) (cx_beam cx)"
    by simp
  from pruneMapToBeam_length [OF dj nn, of "cx_requiredMask cx"] nn
  have "int (length (pruneMapToBeam (cx_requiredMask cx) (fst st ! j) (cx_beam cx)))
      \<le> cx_beam cx"
    by linarith
  with eq jl show ?thesis
    by (simp add: pruneUpdated_length)
qed

lemma dpPass_bounded:
  assumes nn: "0 \<le> cx_beam cx" and b: "boundedTable (cx_beam cx) dpMaps"
    and p: "dpPass cx w dpMaps = Inr dpMaps'"
  shows "boundedTable (cx_beam cx) dpMaps'"
proof -
  from p obtain st where ex: "dpExpandBucket cx w dpMaps = Inr st"
    and res: "dpMaps' = pruneUpdated cx (snd st) (fst st)"
    unfolding dpPass_def by (cases "dpExpandBucket cx w dpMaps") simp_all
  from b have dt: "distinctTable dpMaps"
    unfolding boundedTable_def distinctTable_def list_all_iff by simp
  from dpExpandBucket_unchangedOutside [OF dt ex]
  have len: "length (fst st) = length dpMaps" and du: "distinct (snd st)"
    and same: "\<And>j. j \<notin> set (snd st) \<Longrightarrow> fst st ! j = dpMaps ! j"
    by (simp_all add: unchangedOutside_def)
  have "distinct (map fst (dpMaps' ! j)) \<and> int (length (dpMaps' ! j)) \<le> cx_beam cx"
    if jl: "j < length dpMaps'" for j
  proof (cases "j \<in> set (snd st)")
    case True
    from dpExpandBucket_unchangedOutside [OF dt ex] jl
    have "distinct (map fst (fst st ! j))"
      by (simp add: unchangedOutside_def distinctTable_def list_all_length res
          pruneUpdated_length)
    then have "distinct (map fst (pruneMapToBeam (cx_requiredMask cx) (fst st ! j) (cx_beam cx)))"
      by (rule pruneMapToBeam_distinct)
    moreover from dpPass_pruned [OF nn dt ex True]
    have "dpMaps' ! j = pruneMapToBeam (cx_requiredMask cx) (fst st ! j) (cx_beam cx)"
      and "int (length (dpMaps' ! j)) \<le> cx_beam cx"
      unfolding res by blast+
    ultimately show ?thesis
      by (simp only: simp_thms)
  next
    case False
    from jl have jl': "j < length (fst st)"
      by (simp add: res pruneUpdated_length)
    from pruneUpdated_nth [OF du jl', of cx] False same [OF False]
    have "dpMaps' ! j = dpMaps ! j"
      by (simp add: res)
    moreover from b jl' len
    have "distinct (map fst (dpMaps ! j)) \<and> int (length (dpMaps ! j)) \<le> cx_beam cx"
      by (simp add: boundedTable_def list_all_length)
    ultimately show ?thesis by simp
  qed
  then show ?thesis
    by (simp add: boundedTable_def list_all_length)
qed

lemma initialMaps_bounded:
  "1 \<le> cx_beam cx \<Longrightarrow> boundedTable (cx_beam cx) (initialMaps cx baseResources)"
  by (simp add: boundedTable_def initialMaps_def Let_def list_all_iff)

lemma dpLoop_bounded:
  assumes "1 \<le> cx_beam cx" and "dpLoop cx (initialMaps cx baseResources) = Inr final"
  shows "boundedTable (cx_beam cx) final"
proof -
  from assms(1) have nn: "0 \<le> cx_beam cx" by simp
  from assms(2) initialMaps_bounded [OF assms(1)] show ?thesis
    unfolding dpLoop_def
    by (rule foldE_invariant) (rule dpPass_bounded [OF nn])
qed


text \<open>
  C7. For a beam width of at least 1. Pruning a bucket with pairwise different keys
  leaves \<open>min (size, beamWidth)\<close> of its entries, and no dropped entry has a higher
  \<^const>\<open>pruneScore\<close> than a retained one; on every state whose mask is a 32-bit integer
  that score is the one the specification words, the score plus \<open>10\<^sup>9\<close> when
  \<open>requiredMask > 0\<close> and the mask equals \<open>requiredMask\<close>. A pass of the outer loop returns
  the table of its transitions with every bucket of \<^verbatim>\<open>updatedIndices\<close> pruned, and each of
  them then holds at most \<open>beamWidth\<close> entries. When the outer loop returns, every bucket of
  the table holds at most \<open>beamWidth\<close> entries.
\<close>

theorem beam_pruning:
  assumes beam: "1 \<le> cx_beam cx"
  shows "(distinct (map fst m) \<longrightarrow>
            length (pruneMapToBeam rm m (cx_beam cx)) = min (length m) (nat (cx_beam cx))
            \<and> set (pruneMapToBeam rm m (cx_beam cx)) \<subseteq> set m
            \<and> (\<forall>e \<in> set (pruneMapToBeam rm m (cx_beam cx)).
                 \<forall>e' \<in> set m - set (pruneMapToBeam rm m (cx_beam cx)).
                   pruneScore rm e' \<le> pruneScore rm e))
       \<and> (- 2147483648 \<le> k_mask (fst e) \<longrightarrow>
            pruneScore (requiredMaskOf miscNames) e
              = specPruneScore (requiredMaskOf miscNames) e)
       \<and> (distinctTable dpMaps \<and> dpPass cx w dpMaps = Inr dpMaps' \<longrightarrow>
            (\<exists>st. dpExpandBucket cx w dpMaps = Inr st
               \<and> dpMaps' = pruneUpdated cx (snd st) (fst st)
               \<and> (\<forall>idx \<in> set (snd st).
                     idx < length dpMaps'
                     \<and> dpMaps' ! idx
                         = pruneMapToBeam (cx_requiredMask cx) (fst st ! idx) (cx_beam cx)
                     \<and> int (length (dpMaps' ! idx)) \<le> cx_beam cx)))
       \<and> (dpLoop cx (initialMaps cx baseResources) = Inr final \<longrightarrow>
            (\<forall>b \<in> set final. int (length b) \<le> cx_beam cx))"
proof -
  from beam have nn: "0 \<le> cx_beam cx" by simp
  have pruner: "length (pruneMapToBeam rm m (cx_beam cx)) = min (length m) (nat (cx_beam cx))
      \<and> set (pruneMapToBeam rm m (cx_beam cx)) \<subseteq> set m
      \<and> (\<forall>e \<in> set (pruneMapToBeam rm m (cx_beam cx)).
           \<forall>e' \<in> set m - set (pruneMapToBeam rm m (cx_beam cx)).
             pruneScore rm e' \<le> pruneScore rm e)"
    if d: "distinct (map fst m)"
  proof (intro conjI ballI)
    show "length (pruneMapToBeam rm m (cx_beam cx)) = min (length m) (nat (cx_beam cx))"
      using d nn by (rule pruneMapToBeam_length)
    show "set (pruneMapToBeam rm m (cx_beam cx)) \<subseteq> set m"
      by (rule pruneMapToBeam_subset)
    fix e e'
    assume "e \<in> set (pruneMapToBeam rm m (cx_beam cx))"
      and "e' \<in> set m - set (pruneMapToBeam rm m (cx_beam cx))"
    then show "pruneScore rm e' \<le> pruneScore rm e"
      using pruneMapToBeam_top [OF d nn, of e rm e'] by blast
  qed
  have order: "pruneScore (requiredMaskOf miscNames) e
      = specPruneScore (requiredMaskOf miscNames) e"
    if "- 2147483648 \<le> k_mask (fst e)"
    using that by (rule pruneScore_spec)
  have pass: "\<exists>st. dpExpandBucket cx w dpMaps = Inr st
      \<and> dpMaps' = pruneUpdated cx (snd st) (fst st)
      \<and> (\<forall>idx \<in> set (snd st).
            idx < length dpMaps'
            \<and> dpMaps' ! idx
                = pruneMapToBeam (cx_requiredMask cx) (fst st ! idx) (cx_beam cx)
            \<and> int (length (dpMaps' ! idx)) \<le> cx_beam cx)"
    if dt: "distinctTable dpMaps" and p: "dpPass cx w dpMaps = Inr dpMaps'"
  proof -
    from p obtain st where ex: "dpExpandBucket cx w dpMaps = Inr st"
      and res: "dpMaps' = pruneUpdated cx (snd st) (fst st)"
      unfolding dpPass_def by (cases "dpExpandBucket cx w dpMaps") simp_all
    from dpPass_pruned [OF nn dt ex] ex res show ?thesis
      by blast
  qed
  have selection: "\<forall>b \<in> set final. int (length b) \<le> cx_beam cx"
    if "dpLoop cx (initialMaps cx baseResources) = Inr final"
    using dpLoop_bounded [OF beam that]
    unfolding boundedTable_def list_all_iff by blast
  from pruner order pass selection show ?thesis
    by blast
qed

theorem beam_pruning_witness:
  "pruneMapToBeam 1 exampleBucket 1 = [exampleBucket ! 1]
   \<and> pruneScore 1 (exampleBucket ! 0) \<le> pruneScore 1 (exampleBucket ! 1)
   \<and> \<not> isl (dpLoop townBeamOne (initialMaps townBeamOne DEFAULT_BASE_RESOURCES))
   \<and> list_all (\<lambda>b. int (length b) \<le> 1)
       (projr (dpLoop townBeamOne (initialMaps townBeamOne DEFAULT_BASE_RESOURCES)))
   \<and> list_all (\<lambda>idx. int (length (projr (dpPass townBeamOne 1
                  (projr (dpPass townBeamOne 0
                     (initialMaps townBeamOne DEFAULT_BASE_RESOURCES)))) ! idx)) \<le> 1)
       (snd (projr (dpExpandBucket townBeamOne 1
          (projr (dpPass townBeamOne 0 (initialMaps townBeamOne DEFAULT_BASE_RESOURCES))))))
   \<and> length (fst (projr (dpExpandBucket townBeamOne 1
          (projr (dpPass townBeamOne 0
             (initialMaps townBeamOne DEFAULT_BASE_RESOURCES))))) ! 2) = 2"
proof -
  let ?init = "initialMaps townBeamOne DEFAULT_BASE_RESOURCES"
  let ?one = "projr (dpPass townBeamOne 0 ?init)"
  let ?two = "projr (dpPass townBeamOne 1 ?one)"
  let ?final = "projr (dpLoop townBeamOne ?init)"
  have beam: "cx_beam townBeamOne = 1"
    by code_simp
  then have b1: "1 \<le> cx_beam townBeamOne"
    by simp
  have d: "distinct (map fst exampleBucket)"
    by code_simp
  have kept: "pruneMapToBeam 1 exampleBucket 1 = [exampleBucket ! 1]"
    by code_simp
  have rest: "exampleBucket ! 0 \<in> set exampleBucket - set (pruneMapToBeam 1 exampleBucket 1)"
    by code_simp
  have loop: "\<not> isl (dpLoop townBeamOne ?init)"
    by code_simp
  then have final: "dpLoop townBeamOne ?init = Inr ?final"
    by (cases "dpLoop townBeamOne ?init") simp_all
  have dt: "distinctTable ?one"
    by code_simp
  have "\<not> isl (dpPass townBeamOne 1 ?one)"
    by code_simp
  then have pass: "dpPass townBeamOne 1 ?one = Inr ?two"
    by (cases "dpPass townBeamOne 1 ?one") simp_all
  have grown: "length (fst (projr (dpExpandBucket townBeamOne 1 ?one)) ! 2) = 2"
    by code_simp
  note inst = beam_pruning [OF b1, of exampleBucket 1 "exampleBucket ! 0" "[]" ?one 1 ?two
      DEFAULT_BASE_RESOURCES ?final, unfolded beam]
  from inst d kept rest
  have top: "pruneScore 1 (exampleBucket ! 0) \<le> pruneScore 1 (exampleBucket ! 1)"
    by simp
  from inst final have sel: "list_all (\<lambda>b. int (length b) \<le> 1) ?final"
    unfolding list_all_iff by blast
  from inst dt pass
  have upd: "list_all (\<lambda>idx. int (length (?two ! idx)) \<le> 1)
      (snd (projr (dpExpandBucket townBeamOne 1 ?one)))"
    unfolding list_all_iff by force
  from kept top loop sel upd grown show ?thesis
    by (simp only: simp_thms)
qed

subsection \<open>Mandatory coverage and the selection step\<close>

text \<open>
  C1, evaluated where the code departs from it. The catalog holds one mandatory misc
  building of size 1, so \<^verbatim>\<open>requiredMask\<close> is 1. With a size limit of 1 and the default
  resources the state table holds a state with mask 1 in bucket 1, and the optimizer
  still returns \<^verbatim>\<open>null\<close>: the selection compares \<^verbatim>\<open>requiredMask\<close> with the wood
  component 100 of the key. With a starting wood of 1 every state passes that comparison,
  the root included, and the optimizer returns the empty combination, without the
  mandatory building.
\<close>

theorem selection_compares_wood_with_mask:
  "requiredMaskOf (miscNamesOf (buildVariantsFromDefinitions oneMandatoryMisc)) = 1
   \<and> (case dpSolve oneMandatoryMisc 1 defaultOptions of
         Inr dpMaps \<Rightarrow> map (map (\<lambda>e. k_mask (fst e))) dpMaps = [[0], [1]]
       | Inl e \<Rightarrow> False)
   \<and> optimizeBlockIncomeFromDefinitions oneMandatoryMisc 1 defaultOptions
       = Some (Inl NoSolution)
   \<and> optimizeBlockIncomeFromDefinitions oneMandatoryMisc 1 woodOneOptions
       = Some (Inr \<lparr>combination = [], totalIncome = 0, totalSize = 0, resultTotalStorage = 0\<rparr>)"
  by code_simp

text \<open>
  C8, evaluated where the code departs from it. With one mandatory misc building
  \<^verbatim>\<open>requiredMask\<close> is 1; at size limit 0 with a starting wood of 1 the root state, whose
  mask is 0, passes the selection's comparison and the optimizer returns the empty
  combination instead of \<^verbatim>\<open>null\<close>. With the default resources it returns \<^verbatim>\<open>null\<close>.
\<close>

theorem zero_capacity_with_wood_one:
  "optimizeBlockIncomeFromDefinitions oneMandatoryMisc 0 woodOneOptions
     = Some (Inr \<lparr>combination = [], totalIncome = 0, totalSize = 0, resultTotalStorage = 0\<rparr>)
   \<and> optimizeBlockIncomeFromDefinitions oneMandatoryMisc 0 defaultOptions
       = Some (Inl NoSolution)"
  by code_simp

subsection \<open>Staffing prefeasibility\<close>

lemma nthOr0_nonneg: "list_all (\<lambda>x. 0 \<le> x) xs \<Longrightarrow> 0 \<le> nthOr0 xs i"
  by (simp add: nthOr0_def list_all_length)

lemma update_nonneg:
  assumes "list_all (\<lambda>x. (0::int) \<le> x) xs" and "0 \<le> y"
  shows "list_all (\<lambda>x. 0 \<le> x) (xs[i := y])"
proof -
  have "set (xs[i := y]) \<subseteq> insert y (set xs)"
    by (rule set_update_subset_insert)
  with assms show ?thesis
    unfolding list_all_iff by blast
qed

lemma bump_nonneg:
  assumes "list_all (\<lambda>x. 0 \<le> x) xs" and "0 \<le> c"
  shows "list_all (\<lambda>x. 0 \<le> x) (xs[i := nthOr0 xs i + c])"
proof (rule update_nonneg [OF assms(1)])
  from nthOr0_nonneg [OF assms(1), of i] assms(2) show "0 \<le> nthOr0 xs i + c" by simp
qed

lemma addPreference_nonneg:
  assumes "list_all (\<lambda>x. 0 \<le> x) pc" and "0 \<le> c"
  shows "list_all (\<lambda>x. 0 \<le> x) (addPreference names c p pc)"
  using assms
  by (cases "indexLookup names p") (simp_all add: addPreference_def bump_nonneg)

lemma fold_addPreference_nonneg:
  "list_all (\<lambda>x. 0 \<le> x) pc \<Longrightarrow> 0 \<le> c \<Longrightarrow>
     list_all (\<lambda>x. 0 \<le> x) (fold (addPreference names c) ps pc)"
  by (induction ps arbitrary: pc) (simp_all add: addPreference_nonneg)

lemma fold_addAll_nonneg:
  "list_all (\<lambda>x. 0 \<le> x) pc \<Longrightarrow> 0 \<le> c \<Longrightarrow>
     list_all (\<lambda>x. 0 \<le> x) (fold (\<lambda>bi pc. pc[bi := nthOr0 pc bi + c]) bis pc)"
  by (induction bis arbitrary: pc) (simp_all add: bump_nonneg)

lemma nextAggregates_nonneg:
  assumes "0 \<le> v_capacity v"
    and "list_all (\<lambda>x. 0 \<le> x) (businessCapacityArr node)"
    and "list_all (\<lambda>x. 0 \<le> x) (preferenceCapacity node)"
    and "0 \<le> totalHouseCapacity node"
  shows "list_all (\<lambda>x. 0 \<le> x) (businessCapacityArr (nextAggregates cx node v))
       \<and> list_all (\<lambda>x. 0 \<le> x) (preferenceCapacity (nextAggregates cx node v))
       \<and> 0 \<le> totalHouseCapacity (nextAggregates cx node v)"
proof (cases "v_workerType v")
  case None
  with assms show ?thesis by (simp add: nextAggregates_def)
next
  case (Some wt)
  show ?thesis
  proof (cases wt)
    case Employees
    with Some assms show ?thesis
      by (simp add: nextAggregates_def bump_nonneg split: option.splits)
  next
    case Residents
    with Some assms show ?thesis
      by (simp add: nextAggregates_def fold_addPreference_nonneg fold_addAll_nonneg
          del: fold.simps split: option.splits list.splits)
  qed
qed

lemma successor_node:
  "snd (successor cx w key node i v)
     = (nextAggregates cx node v)
         \<lparr>prevKey := Some key, prevW := int w, variantIndex := int i,
          total := fst (estimate cx (int w + v_size v) v (nextAggregates cx node v))\<rparr>"
  by (simp add: successor_def Let_def)

lemma liveNode_nonneg:
  assumes "liveNode cx node" and "\<forall>v \<in> set (cx_variants cx). 0 \<le> v_capacity v"
  shows "list_all (\<lambda>x. 0 \<le> x) (businessCapacityArr node)
       \<and> list_all (\<lambda>x. 0 \<le> x) (preferenceCapacity node)
       \<and> 0 \<le> totalHouseCapacity node"
  using assms
proof (induction rule: liveNode.induct)
  case liveRoot
  show ?case by (simp add: initialNode_def list_all_length)
next
  case (liveSuccessor node v w key i)
  from liveSuccessor.hyps(2) liveSuccessor.prems have cap: "0 \<le> v_capacity v" by blast
  from liveSuccessor.IH [OF liveSuccessor.prems]
  have "list_all (\<lambda>x. 0 \<le> x) (businessCapacityArr node)"
    and "list_all (\<lambda>x. 0 \<le> x) (preferenceCapacity node)"
    and "0 \<le> totalHouseCapacity node"
    by blast+
  from nextAggregates_nonneg [OF cap this, of cx] show ?case
    by (simp add: successor_node)
qed

lemma sum_list_zero_entries:
  assumes "list_all (\<lambda>x. (0::int) \<le> x) xs" and "sum_list xs \<le> 0"
  shows "list_all (\<lambda>x. x = 0) xs"
proof -
  from assms(1) have nn: "\<And>x. x \<in> set xs \<Longrightarrow> 0 \<le> x"
    by (simp add: list_all_iff)
  then have "0 \<le> sum_list xs" by (rule sum_list_nonneg)
  with assms(2) have "sum_list xs = 0" by simp
  with nn have "\<forall>x \<in> set xs. x = 0" by (simp add: sum_list_nonneg_eq_0_iff)
  then show ?thesis by (simp add: list_all_iff)
qed

lemma nthOr0_zero: "list_all (\<lambda>x. x = 0) xs \<Longrightarrow> nthOr0 xs i = 0"
  by (simp add: nthOr0_def list_all_length)


lemma insertSuccessor_stores:
  assumes "0 \<le> nw" and "nw < int (length (fst st))"
    and "map_of (fst st ! nat nw) k = None"
  shows "\<exists>st'. insertSuccessor nw k nd st = Inr st'
           \<and> map_of (fst st' ! nat nw) k = Some nd"
proof -
  from assms(1,2) have n: "nat nw < length (fst st)" by linarith
  from assms have "insertSuccessor nw k nd st
      = Inr ((fst st)[nat nw := AList.update k nd (fst st ! nat nw)],
             if nat nw \<in> set (snd st) then snd st else snd st @ [nat nw])"
    by (simp add: insertSuccessor_def Let_def)
  moreover from n have "map_of (fst ((fst st)[nat nw := AList.update k nd (fst st ! nat nw)],
      if nat nw \<in> set (snd st) then snd st else snd st @ [nat nw]) ! nat nw) k = Some nd"
    by (simp add: update_conv')
  ultimately show ?thesis by blast
qed

text \<open>
  The staffing filter on every business but one named \<^verbatim>\<open>__proto__\<close>, for a live state
  and a variant of a catalog with non-negative capacities (the range the specification
  gives for a variant). A non-mandatory variant with worker kind employees is rejected by
  the filter exactly when the double quotient of the house capacity by the business
  capacity it would bring about is below the double 0.9, or the preference capacity of its
  business is less than the business capacity of that business plus its own capacity.
  Mandatory employee variants and all other worker kinds are never rejected by the filter.
  The transition of a rejected variant leaves the state table as it is; the transition of
  a variant that fits the block, can be paid and is not rejected is the insertion of its
  successor.
\<close>

lemma staffing_prefeasibility:
  assumes caps: "\<forall>v \<in> set (cx_variants cx). 0 \<le> v_capacity v"
    and live: "liveNode cx node"
    and v: "v \<in> set (cx_variants cx)"
    and name: "v_name v \<noteq> ''__proto__''"
  shows "(v_workerType v = Some Employees \<and> \<not> v_mandatory v \<longrightarrow>
            (staffingRejects cx node v \<longleftrightarrow>
               jsQuotientBelow (totalHouseCapacity node)
                   (sum_list (businessCapacityArr node) + v_capacity v) MIN_STAFFING_RATIO
               \<or> entryOfBusiness cx v (preferenceCapacity node)
                   < entryOfBusiness cx v (businessCapacityArr node) + v_capacity v))
       \<and> (\<not> (v_workerType v = Some Employees \<and> \<not> v_mandatory v) \<longrightarrow>
            \<not> staffingRejects cx node v)
       \<and> (staffingRejects cx node v \<longrightarrow> dpTransition cx w key node (i, v) st = Inr st)
       \<and> (\<not> staffingRejects cx node v \<and> int w + v_size v \<le> cx_capacity cx
            \<and> (isStorageBuilding v \<or> \<not> cannotAfford key v) \<longrightarrow>
            dpTransition cx w key node (i, v) st
              = insertSuccessor (int w + v_size v) (fst (successor cx w key node i v))
                  (snd (successor cx w key node i v)) st)"
proof -
  from v caps have cap: "0 \<le> v_capacity v" by blast
  from liveNode_nonneg [OF live caps]
  have bc: "list_all (\<lambda>x. 0 \<le> x) (businessCapacityArr node)"
    and pc: "list_all (\<lambda>x. 0 \<le> x) (preferenceCapacity node)"
    and hc: "0 \<le> totalHouseCapacity node"
    by blast+
  let ?B = "sum_list (businessCapacityArr node) + v_capacity v"
  let ?low = "jsQuotientBelow (totalHouseCapacity node) ?B MIN_STAFFING_RATIO"
  let ?short = "entryOfBusiness cx v (preferenceCapacity node)
                  < entryOfBusiness cx v (businessCapacityArr node) + v_capacity v"
  from name have look: "indexLookup (cx_businessNames cx) (v_name v)
      = indexOf (cx_businessNames cx) (v_name v)"
    by (simp add: indexLookup_def)
  have unfold: "staffingRejects cx node v \<longleftrightarrow>
      v_workerType v = Some Employees \<and> \<not> v_mandatory v \<and> 0 < ?B \<and> (?low \<or> ?short)"
    by (cases "indexOf (cx_businessNames cx) (v_name v)")
      (simp_all add: staffingRejects_def Let_def entryOfBusiness_def look not_le)
  have sum_nonneg: "0 \<le> sum_list (businessCapacityArr node)"
    using bc by (intro sum_list_nonneg) (simp add: list_all_iff)
  have zero: "\<not> ?low \<and> \<not> ?short" if B0: "?B = 0"
  proof -
    from B0 cap sum_nonneg have s: "sum_list (businessCapacityArr node) \<le> 0"
      and c: "v_capacity v = 0"
      by linarith+
    from nthOr0_zero [OF sum_list_zero_entries [OF bc s]]
    have "entryOfBusiness cx v (businessCapacityArr node) = 0"
      by (simp add: entryOfBusiness_def split: option.splits)
    moreover have "0 \<le> entryOfBusiness cx v (preferenceCapacity node)"
      using nthOr0_nonneg [OF pc] by (simp add: entryOfBusiness_def split: option.splits)
    ultimately show ?thesis
      using B0 c hc by (simp add: jsQuotientBelow_def)
  qed
  have iff: "0 < ?B \<and> (?low \<or> ?short) \<longleftrightarrow> ?low \<or> ?short"
  proof (cases "?B = 0")
    case True
    with zero show ?thesis by simp
  next
    case False
    with sum_nonneg cap have "0 < ?B" by linarith
    then show ?thesis by simp
  qed
  have rejected: "dpTransition cx w key node (i, v) st = Inr st" if "staffingRejects cx node v"
    using that by (simp add: dpTransition_def Let_def)
  have passed: "dpTransition cx w key node (i, v) st
      = insertSuccessor (int w + v_size v) (fst (successor cx w key node i v))
          (snd (successor cx w key node i v)) st"
    if "\<not> staffingRejects cx node v" and "int w + v_size v \<le> cx_capacity cx"
      and "isStorageBuilding v \<or> \<not> cannotAfford key v"
    using that by (auto simp: dpTransition_def Let_def)
  from unfold iff rejected passed show ?thesis by blast
qed

text \<open>In the town with the business \<^verbatim>\<open>Shop\<close>: the shop is rejected at the root, where no
  house stands, and after the cottage its transition stores its successor in bucket 4.\<close>

lemma staffing_prefeasibility_example:
  "staffingRejects (businessTownContext ''Shop'') (initialNode 1) (businessVariant ''Shop'')
   \<and> \<not> staffingRejects (businessTownContext ''Shop'') (snd (afterCottage ''Shop''))
         (businessVariant ''Shop'')
   \<and> (\<exists>st'. dpTransition (businessTownContext ''Shop'') 2 (fst (afterCottage ''Shop''))
              (snd (afterCottage ''Shop'')) (1, businessVariant ''Shop'')
              (initialMaps (businessTownContext ''Shop'') DEFAULT_BASE_RESOURCES, [])
            = Inr st'
          \<and> map_of (fst st' ! 4)
               (fst (successor (businessTownContext ''Shop'') 2 (fst (afterCottage ''Shop''))
                      (snd (afterCottage ''Shop'')) 1 (businessVariant ''Shop'')))
             = Some (snd (successor (businessTownContext ''Shop'') 2
                      (fst (afterCottage ''Shop'')) (snd (afterCottage ''Shop'')) 1
                      (businessVariant ''Shop''))))"
proof -
  let ?cx = "businessTownContext ''Shop''"
  let ?shop = "businessVariant ''Shop''"
  let ?key = "fst (afterCottage ''Shop'')"
  let ?node = "snd (afterCottage ''Shop'')"
  let ?st = "(initialMaps ?cx DEFAULT_BASE_RESOURCES, [] :: nat list)"
  let ?s = "successor ?cx 2 ?key ?node 1 ?shop"
  have caps: "\<forall>v \<in> set (cx_variants ?cx). 0 \<le> v_capacity v"
    by code_simp
  have "length (cx_businessNames ?cx) = 1"
    by code_simp
  with liveRoot [of ?cx] have root: "liveNode ?cx (initialNode 1)"
    by simp
  have cottage: "cottageVariant \<in> set (cx_variants ?cx)"
    by code_simp
  from liveSuccessor [OF root cottage, of 0 "initialKey DEFAULT_BASE_RESOURCES 1" 0]
  have live: "liveNode ?cx ?node"
    by (simp add: afterCottage_def)
  have mem: "?shop \<in> set (cx_variants ?cx)"
    by code_simp
  have name: "v_name ?shop \<noteq> ''__proto__''"
    by code_simp
  have kind: "v_workerType ?shop = Some Employees \<and> \<not> v_mandatory ?shop"
    by code_simp
  have low: "jsQuotientBelow (totalHouseCapacity (initialNode 1))
      (sum_list (businessCapacityArr (initialNode 1)) + v_capacity ?shop) MIN_STAFFING_RATIO"
    by code_simp
  have high: "\<not> (jsQuotientBelow (totalHouseCapacity ?node)
      (sum_list (businessCapacityArr ?node) + v_capacity ?shop) MIN_STAFFING_RATIO
      \<or> entryOfBusiness ?cx ?shop (preferenceCapacity ?node)
          < entryOfBusiness ?cx ?shop (businessCapacityArr ?node) + v_capacity ?shop)"
    by code_simp
  have fits: "int 2 + v_size ?shop \<le> cx_capacity ?cx \<and> \<not> cannotAfford ?key ?shop"
    by code_simp
  have bucket: "int 2 + v_size ?shop = 4 \<and> (4 :: int) < int (length (fst ?st))
      \<and> map_of (fst ?st ! nat 4) (fst ?s) = None"
    by code_simp
  from staffing_prefeasibility [OF caps root mem name] kind low
  have one: "staffingRejects ?cx (initialNode 1) ?shop"
    by blast
  note at_node = staffing_prefeasibility [OF caps live mem name, of 2 ?key 1 ?st]
  from at_node kind high have two: "\<not> staffingRejects ?cx ?node ?shop"
    by blast
  with at_node fits bucket
  have "dpTransition ?cx 2 ?key ?node (1, ?shop) ?st = insertSuccessor 4 (fst ?s) (snd ?s) ?st"
    by simp
  moreover from bucket insertSuccessor_stores [of 4 ?st "fst ?s" "snd ?s"]
  have "\<exists>st'. insertSuccessor 4 (fst ?s) (snd ?s) ?st = Inr st'
      \<and> map_of (fst st' ! nat 4) (fst ?s) = Some (snd ?s)"
    by simp
  ultimately have three: "\<exists>st'. dpTransition ?cx 2 ?key ?node (1, ?shop) ?st = Inr st'
      \<and> map_of (fst st' ! 4) (fst ?s) = Some (snd ?s)"
    by simp
  from one two three show ?thesis
    by blast
qed

text \<open>
  C5. The filter does not do what the claim says for a business named \<^verbatim>\<open>__proto__\<close>. In
  the town of one cottage (four residents, no preference) and one such business (four
  employees), take the state with one cottage: the house capacity is 4, the business
  capacity 0, and the preference capacity the state holds for the business is 4. For the
  business variant the quotient \<open>4 / (0 + 4)\<close> is not below 0.9 and \<open>4 < 0 + 4\<close> is false:
  by the claim the transition is not rejected. The code rejects it and leaves the table
  as it is: \<^verbatim>\<open>businessIndex["__proto__"] = 0\<close> stored nothing, the filter reads
  \<^verbatim>\<open>businessIndex[v.name]\<close>, finds no number and takes both capacities as 0, and
  \<open>0 \<ge> 0 + 4\<close> fails. The optimizer returns the empty combination with income 0; with the
  business named \<^verbatim>\<open>Shop\<close> the same state passes the filter and the optimizer returns the
  cottage and the shop with income 12.
\<close>

theorem staffing_filter_rejects_proto_business:
  "cx_variants (businessTownContext ''__proto__'')
     = [cottageVariant, businessVariant ''__proto__'']
   \<and> cx_businessNames (businessTownContext ''__proto__'') = [''__proto__'']
   \<and> v_workerType (businessVariant ''__proto__'') = Some Employees
   \<and> \<not> v_mandatory (businessVariant ''__proto__'')
   \<and> v_capacity (businessVariant ''__proto__'') = 4
   \<and> totalHouseCapacity (snd (afterCottage ''__proto__'')) = 4
   \<and> businessCapacityArr (snd (afterCottage ''__proto__'')) = [0]
   \<and> preferenceCapacity (snd (afterCottage ''__proto__'')) = [4]
   \<and> \<not> jsQuotientBelow 4 (0 + 4) MIN_STAFFING_RATIO
   \<and> entryOfBusiness (businessTownContext ''__proto__'') (businessVariant ''__proto__'')
         (preferenceCapacity (snd (afterCottage ''__proto__''))) = 4
   \<and> entryOfBusiness (businessTownContext ''__proto__'') (businessVariant ''__proto__'')
         (businessCapacityArr (snd (afterCottage ''__proto__''))) = 0
   \<and> staffingRejects (businessTownContext ''__proto__'') (snd (afterCottage ''__proto__''))
         (businessVariant ''__proto__'')
   \<and> dpTransition (businessTownContext ''__proto__'') 2 (fst (afterCottage ''__proto__''))
         (snd (afterCottage ''__proto__'')) (1, businessVariant ''__proto__'')
         (initialMaps (businessTownContext ''__proto__'') DEFAULT_BASE_RESOURCES, [])
       = Inr (initialMaps (businessTownContext ''__proto__'') DEFAULT_BASE_RESOURCES, [])
   \<and> \<not> staffingRejects (businessTownContext ''Shop'') (snd (afterCottage ''Shop''))
         (businessVariant ''Shop'')
   \<and> optimizeBlockIncomeFromDefinitions (businessTown ''__proto__'') 4 defaultOptions
       = Some (Inr \<lparr>combination = [], totalIncome = 0, totalSize = 0,
                      resultTotalStorage = 0\<rparr>)
   \<and> optimizeBlockIncomeFromDefinitions (businessTown ''Shop'') 4 defaultOptions
       = Some (Inr \<lparr>combination =
            [\<lparr>ci_name = ''Cottage'', ci_level = 1, ci_count = 1, ci_size = 2,
               ci_incomePerBuilding = 2, ci_capacity = 4,
               ci_storageCapacity = StorageNumber 0, ci_workerType = Some Residents,
               ci_type = ''house'', ci_totalIncome = 2, ci_totalSize = 2\<rparr>,
             \<lparr>ci_name = ''Shop'', ci_level = 1, ci_count = 1, ci_size = 2,
               ci_incomePerBuilding = 10, ci_capacity = 4,
               ci_storageCapacity = StorageNumber 0, ci_workerType = Some Employees,
               ci_type = ''business'', ci_totalIncome = 10, ci_totalSize = 2\<rparr>],
            totalIncome = 12, totalSize = 4, resultTotalStorage = 0\<rparr>)"
  by code_simp

subsection \<open>Multi-block driver\<close>

text \<open>
  C3, evaluated where the code departs from it. The catalog holds one mandatory misc
  building of size 2; two blocks of size limit 1 are solved. The last block is solved
  with the size limit 1 - 2, which the optimizer raises to 0, and the reserved building
  is appended to its empty combination: the block holds size 2 under a limit of 1.
\<close>

theorem last_block_exceeds_size_limit:
  "(case optimizeMultipleBlocks oversizedMandatoryMisc 2 1 None of
      Some (Inr r) \<Rightarrow>
        map (\<lambda>b. combinationSize (blockCombination b)) (blocks r) = [0, 2]
        \<and> map blockTotalSize (blocks r) = [0, 2]
    | _ \<Rightarrow> False)"
  by code_simp

text \<open>
  C4, evaluated where the code departs from it. The catalog holds one mandatory misc
  building of size 1 and income 5; two blocks of size limit 1 are solved. With its flag
  cleared the building stays in the catalog of the first block, and the optimizer places
  it there for its income; the last block receives the reserved copy.
\<close>

theorem first_block_holds_mandatory_misc:
  "map v_name (mandatoryMiscBuildingsOf profitableMandatoryMisc) = [''M1'']
   \<and> (case optimizeMultipleBlocks profitableMandatoryMisc 2 1 None of
         Some (Inr r) \<Rightarrow>
           map (\<lambda>b. map (\<lambda>item. (ci_name item, ci_count item)) (blockCombination b)) (blocks r)
             = [[(''M1'', 1)], [(''M1'', 1)]]
       | _ \<Rightarrow> False)"
  by code_simp

lemma storageStep_axes:
  "res_money (storageStep item acc) = res_money acc + storageContributionOn money item"
  "res_wood (storageStep item acc) = res_wood acc + storageContributionOn wood item"
  "res_cement (storageStep item acc) = res_cement acc + storageContributionOn cement item"
  "res_steel (storageStep item acc) = res_steel acc + storageContributionOn steel item"
  by (cases "ci_storageCapacity item"; simp add: storageStep_def storageContributionOn_def)+

lemma fold_storageStep:
  "fold storageStep items acc =
     \<lparr>res_money = res_money acc + sum_list (map (storageContributionOn money) items),
      res_wood = res_wood acc + sum_list (map (storageContributionOn wood) items),
      res_cement = res_cement acc + sum_list (map (storageContributionOn cement) items),
      res_steel = res_steel acc + sum_list (map (storageContributionOn steel) items)\<rparr>"
  by (induction items arbitrary: acc) (simp_all add: storageStep_axes)

lemma blockStorageContribution_sums:
  "blockStorageContribution items =
     \<lparr>res_money = sum_list (map (storageContributionOn money) items),
      res_wood = sum_list (map (storageContributionOn wood) items),
      res_cement = sum_list (map (storageContributionOn cement) items),
      res_steel = sum_list (map (storageContributionOn steel) items)\<rparr>"
  by (simp add: blockStorageContribution_def fold_storageStep zeroResources_def)

lemma runBlockWith_accounts:
  assumes "runBlockWith numBlocks sizeLimit beam mandatory blockIdx modifiedDefs st = Some (Inr st')"
    and "aggregateStorageFromBuildings st = accountedStorage (blockResults st)"
  shows "aggregateStorageFromBuildings st' = accountedStorage (blockResults st')"
  using assms
  by (auto simp: runBlockWith_def Let_def accountedStorage_def addResources_def
      blockStorageContribution_sums split: option.splits sum.splits if_splits)

lemma blocksLoop_invariant:
  assumes "blocksLoop body idxs st = Some (Inr st')"
    and "\<And>i s s'. body i s = Some (Inr s') \<Longrightarrow> P s \<Longrightarrow> P s'"
    and "P st"
  shows "P st'"
  using assms
proof (induction idxs arbitrary: st)
  case Nil
  then show ?case by simp
next
  case (Cons i idxs)
  from Cons.prems(1) obtain s1 where b: "body i st = Some (Inr s1)"
    and rest: "blocksLoop body idxs s1 = Some (Inr st')"
    by (auto split: option.splits sum.splits)
  from Cons.prems(2) [OF b Cons.prems(3)] have "P s1" .
  from Cons.IH [OF rest Cons.prems(2) this] show ?case by simp
qed

text \<open>
  C9. When the multi-block driver returns a result, the aggregate storage on every axis
  is the base storage on that axis plus the sum, over all blocks and over the items of a
  block's combination, of the item's storage contribution on that axis (its object-shaped
  storage capacity on the axis times its count).
\<close>

theorem storage_aggregation:
  assumes "optimizeMultipleBlocks defs numBlocks sizeLimit beam = Some (Inr res)"
  shows "baseStorage res = DEFAULT_BASE_RESOURCES
    \<and> res_money (aggregateTotalStorage res)
        = res_money (baseStorage res)
          + (\<Sum>b\<leftarrow>blocks res. \<Sum>item\<leftarrow>blockCombination b. storageContributionOn money item)
    \<and> res_wood (aggregateTotalStorage res)
        = res_wood (baseStorage res)
          + (\<Sum>b\<leftarrow>blocks res. \<Sum>item\<leftarrow>blockCombination b. storageContributionOn wood item)
    \<and> res_cement (aggregateTotalStorage res)
        = res_cement (baseStorage res)
          + (\<Sum>b\<leftarrow>blocks res. \<Sum>item\<leftarrow>blockCombination b. storageContributionOn cement item)
    \<and> res_steel (aggregateTotalStorage res)
        = res_steel (baseStorage res)
          + (\<Sum>b\<leftarrow>blocks res. \<Sum>item\<leftarrow>blockCombination b. storageContributionOn steel item)"
proof (cases "numBlocks = 1")
  case True
  with assms obtain result where "res = singleBlockResult result"
    by (auto simp: optimizeMultipleBlocks_def split: option.splits sum.splits)
  then show ?thesis
    by (simp add: singleBlockResult_def Let_def addResources_def blockStorageContribution_sums)
next
  case False
  with assms obtain st where
    loop: "blocksLoop (runBlock defs numBlocks sizeLimit beam (mandatoryMiscBuildingsOf defs))
             [0..<nat numBlocks] initialDriverState = Some (Inr st)"
    and res: "res = multiBlockResult st"
    by (auto simp: optimizeMultipleBlocks_def split: option.splits sum.splits if_splits)
  have "aggregateStorageFromBuildings st = accountedStorage (blockResults st)"
  proof (rule blocksLoop_invariant [OF loop])
    show "aggregateStorageFromBuildings initialDriverState
            = accountedStorage (blockResults initialDriverState)"
      by (simp add: initialDriverState_def accountedStorage_def zeroResources_def)
  next
    fix i s s'
    assume "runBlock defs numBlocks sizeLimit beam (mandatoryMiscBuildingsOf defs) i s = Some (Inr s')"
      and "aggregateStorageFromBuildings s = accountedStorage (blockResults s)"
    then show "aggregateStorageFromBuildings s' = accountedStorage (blockResults s')"
      unfolding runBlock_def by (rule runBlockWith_accounts)
  qed
  with res show ?thesis
    by (simp add: multiBlockResult_def addResources_def accountedStorage_def)
qed

theorem storage_aggregation_witness:
  "(case optimizeMultipleBlocks townCatalog 2 1 None of
      Some (Inr res) \<Rightarrow>
        res_wood (aggregateTotalStorage res) = 200
        \<and> (\<Sum>b\<leftarrow>blocks res. \<Sum>item\<leftarrow>blockCombination b. storageContributionOn wood item) = 100
        \<and> res_wood (baseStorage res) = 100
    | _ \<Rightarrow> False)"
proof -
  have "(case optimizeMultipleBlocks townCatalog 2 1 None of
      Some (Inr res) \<Rightarrow>
        (\<Sum>b\<leftarrow>blocks res. \<Sum>item\<leftarrow>blockCombination b. storageContributionOn wood item) = 100
    | _ \<Rightarrow> False)"
    by code_simp
  then obtain res where run: "optimizeMultipleBlocks townCatalog 2 1 None = Some (Inr res)"
    and sum: "(\<Sum>b\<leftarrow>blocks res. \<Sum>item\<leftarrow>blockCombination b. storageContributionOn wood item) = 100"
    by (auto split: option.splits sum.splits)
  from storage_aggregation [OF run] sum run show ?thesis
    by (simp add: DEFAULT_BASE_RESOURCES_def)
qed

subsection \<open>The catalog argument of the multi-block driver\<close>

lemma list_all_drop:
  "list_all P (drop n xs) \<longleftrightarrow> (\<forall>a. n \<le> a \<and> a < length xs \<longrightarrow> P (xs ! a))"
proof
  assume l: "list_all P (drop n xs)"
  show "\<forall>a. n \<le> a \<and> a < length xs \<longrightarrow> P (xs ! a)"
  proof (intro allI impI)
    fix a
    assume "n \<le> a \<and> a < length xs"
    then have "a - n < length (drop n xs)" and "drop n xs ! (a - n) = xs ! a"
      by auto
    with l show "P (xs ! a)"
      unfolding list_all_length by metis
  qed
next
  assume r: "\<forall>a. n \<le> a \<and> a < length xs \<longrightarrow> P (xs ! a)"
  show "list_all P (drop n xs)"
    unfolding list_all_length
  proof (intro allI impI)
    fix i
    assume "i < length (drop n xs)"
    then have "n \<le> n + i \<and> n + i < length xs" and "drop n xs ! i = xs ! (n + i)"
      by auto
    with r show "P (drop n xs ! i)"
      by metis
  qed
qed

lemma freshAbove_nth:
  "freshAbove n h \<longleftrightarrow>
     (\<forall>a. n \<le> a \<and> a < length h \<longrightarrow> list_all (\<lambda>u. n \<le> u) (upgradeAddrs (h ! a)))"
  unfolding freshAbove_def by (rule list_all_drop)

lemma freshAbove_append:
  assumes "n \<le> length h" and "freshAbove n h"
    and "list_all (\<lambda>obj. list_all (\<lambda>u. n \<le> u) (upgradeAddrs obj)) zs"
  shows "freshAbove n (h @ zs)"
  using assms by (simp add: freshAbove_def)

lemma cloneUpgrades_store:
  "\<exists>zs. fst (cloneUpgrades h as) = h @ zs \<and> list_all (\<lambda>obj. upgradeAddrs obj = []) zs"
proof (induction as arbitrary: h)
  case Nil
  show ?case by simp
next
  case (Cons a as)
  let ?h = "h @ [UpgradeAt (upgradeAt h a)]"
  from Cons.IH [of ?h] obtain zs where
    "fst (cloneUpgrades ?h as) = ?h @ zs" and "list_all (\<lambda>obj. upgradeAddrs obj = []) zs"
    by blast
  then have "fst (cloneUpgrades h (a # as)) = h @ (UpgradeAt (upgradeAt h a) # zs)
      \<and> list_all (\<lambda>obj. upgradeAddrs obj = []) (UpgradeAt (upgradeAt h a) # zs)"
    by (simp add: Let_def allocate_def upgradeAddrs_def)
  then show ?case by blast
qed

lemma cloneUpgrades_addrs:
  "list_all (\<lambda>a. length h \<le> a) (snd (cloneUpgrades h as))"
proof (induction as arbitrary: h)
  case Nil
  show ?case by simp
next
  case (Cons a as)
  let ?h = "h @ [UpgradeAt (upgradeAt h a)]"
  from Cons.IH [of ?h] have "list_all (\<lambda>a. length h \<le> a) (snd (cloneUpgrades ?h as))"
    unfolding list_all_iff by fastforce
  then show ?case
    by (simp add: Let_def allocate_def)
qed


lemma cloneDefinition_store:
  assumes "n \<le> length h"
  shows "\<exists>zs. fst (cloneDefinition h a) = h @ zs
           \<and> list_all (\<lambda>obj. list_all (\<lambda>u. n \<le> u) (upgradeAddrs obj)) zs"
proof (cases "def_upgrades (definitionAt h a)")
  case None
  then have "fst (cloneDefinition h a) = h @ [DefinitionAt (definitionAt h a)]
      \<and> list_all (\<lambda>obj. list_all (\<lambda>u. n \<le> u) (upgradeAddrs obj))
          [DefinitionAt (definitionAt h a)]"
    by (simp add: cloneDefinition_def allocate_def upgradeAddrs_def)
  then show ?thesis by blast
next
  case (Some ups)
  obtain zs where zs: "fst (cloneUpgrades h ups) = h @ zs"
    and plain: "list_all (\<lambda>obj. upgradeAddrs obj = []) zs"
    using cloneUpgrades_store by blast
  let ?d = "DefinitionAt ((definitionAt h a)\<lparr>def_upgrades := Some (snd (cloneUpgrades h ups))\<rparr>)"
  from cloneUpgrades_addrs [of h ups] assms
  have fr: "list_all (\<lambda>u. n \<le> u) (snd (cloneUpgrades h ups))"
    unfolding list_all_iff by fastforce
  from plain have "list_all (\<lambda>obj. list_all (\<lambda>u. n \<le> u) (upgradeAddrs obj)) zs"
    unfolding list_all_iff by simp
  with fr have "list_all (\<lambda>obj. list_all (\<lambda>u. n \<le> u) (upgradeAddrs obj)) (zs @ [?d])"
    by (simp add: upgradeAddrs_def)
  moreover from Some zs have "fst (cloneDefinition h a) = h @ (zs @ [?d])"
    by (simp add: cloneDefinition_def Let_def allocate_def)
  ultimately show ?thesis by blast
qed

lemma cloneDefinition_addr: "length h \<le> snd (cloneDefinition h a)"
proof (cases "def_upgrades (definitionAt h a)")
  case None
  then show ?thesis
    by (simp add: cloneDefinition_def allocate_def)
next
  case (Some ups)
  obtain zs where "fst (cloneUpgrades h ups) = h @ zs"
    using cloneUpgrades_store by blast
  with Some show ?thesis
    by (simp add: cloneDefinition_def Let_def allocate_def)
qed

lemma cloneGroup_store:
  assumes "n \<le> length h"
  shows "\<exists>zs. fst (cloneGroup h g) = h @ zs
           \<and> list_all (\<lambda>obj. list_all (\<lambda>u. n \<le> u) (upgradeAddrs obj)) zs"
  using assms
proof (induction g arbitrary: h)
  case Nil
  show ?case by simp
next
  case (Cons na rest)
  from cloneDefinition_store [OF Cons.prems, of "snd na"] obtain zs1 where
    one: "fst (cloneDefinition h (snd na)) = h @ zs1"
    and f1: "list_all (\<lambda>obj. list_all (\<lambda>u. n \<le> u) (upgradeAddrs obj)) zs1"
    by blast
  from Cons.prems have "n \<le> length (h @ zs1)" by simp
  from Cons.IH [OF this] obtain zs2 where
    two: "fst (cloneGroup (h @ zs1) rest) = (h @ zs1) @ zs2"
    and f2: "list_all (\<lambda>obj. list_all (\<lambda>u. n \<le> u) (upgradeAddrs obj)) zs2"
    by blast
  from one two have "fst (cloneGroup h (na # rest)) = h @ (zs1 @ zs2)"
    by (simp add: Let_def)
  moreover from f1 f2
  have "list_all (\<lambda>obj. list_all (\<lambda>u. n \<le> u) (upgradeAddrs obj)) (zs1 @ zs2)"
    by simp
  ultimately show ?case by blast
qed

lemma cloneGroup_addrs:
  assumes "n \<le> length h"
  shows "list_all (\<lambda>na. n \<le> snd na) (snd (cloneGroup h g))"
  using assms
proof (induction g arbitrary: h)
  case Nil
  show ?case by simp
next
  case (Cons na rest)
  from cloneDefinition_store [OF Cons.prems, of "snd na"] obtain zs1 where
    one: "fst (cloneDefinition h (snd na)) = h @ zs1"
    by blast
  from Cons.prems have "n \<le> length (h @ zs1)" by simp
  from Cons.IH [OF this] one
  have "list_all (\<lambda>na. n \<le> snd na) (snd (cloneGroup (fst (cloneDefinition h (snd na))) rest))"
    by simp
  moreover from cloneDefinition_addr [of h "snd na"] Cons.prems
  have "n \<le> snd (cloneDefinition h (snd na))"
    by linarith
  ultimately show ?case
    by (simp add: Let_def)
qed

lemma cloneTypes_store:
  assumes "n \<le> length h"
  shows "\<exists>zs. fst (cloneTypes h ts) = h @ zs
           \<and> list_all (\<lambda>obj. list_all (\<lambda>u. n \<le> u) (upgradeAddrs obj)) zs"
  using assms
proof (induction ts arbitrary: h)
  case Nil
  show ?case by simp
next
  case (Cons tg rest)
  from cloneGroup_store [OF Cons.prems, of "snd tg"] obtain zs1 where
    one: "fst (cloneGroup h (snd tg)) = h @ zs1"
    and f1: "list_all (\<lambda>obj. list_all (\<lambda>u. n \<le> u) (upgradeAddrs obj)) zs1"
    by blast
  from Cons.prems have "n \<le> length (h @ zs1)" by simp
  from Cons.IH [OF this] obtain zs2 where
    two: "fst (cloneTypes (h @ zs1) rest) = (h @ zs1) @ zs2"
    and f2: "list_all (\<lambda>obj. list_all (\<lambda>u. n \<le> u) (upgradeAddrs obj)) zs2"
    by blast
  from one two have "fst (cloneTypes h (tg # rest)) = h @ (zs1 @ zs2)"
    by (simp add: Let_def)
  moreover from f1 f2
  have "list_all (\<lambda>obj. list_all (\<lambda>u. n \<le> u) (upgradeAddrs obj)) (zs1 @ zs2)"
    by simp
  ultimately show ?case by blast
qed

lemma cloneTypes_addrs:
  assumes "n \<le> length h"
  shows "freshRef n (snd (cloneTypes h ts))"
  using assms
proof (induction ts arbitrary: h)
  case Nil
  show ?case by (simp add: freshRef_def)
next
  case (Cons tg rest)
  from cloneGroup_store [OF Cons.prems, of "snd tg"] obtain zs1 where
    one: "fst (cloneGroup h (snd tg)) = h @ zs1"
    by blast
  from Cons.prems have "n \<le> length (h @ zs1)" by simp
  from Cons.IH [OF this] one
  have "freshRef n (snd (cloneTypes (fst (cloneGroup h (snd tg))) rest))"
    by simp
  with cloneGroup_addrs [OF Cons.prems, of "snd tg"] show ?case
    by (simp add: Let_def freshRef_def)
qed

lemma jsonClone_fresh:
  "\<exists>zs. fst (jsonClone h r) = h @ zs \<and> freshAbove (length h) (h @ zs)
        \<and> freshRef (length h) (ref_buildingTypes (snd (jsonClone h r)))"
proof -
  from cloneTypes_store [of "length h" h "ref_buildingTypes r"] obtain zs where
    one: "fst (cloneTypes h (ref_buildingTypes r)) = h @ zs"
    and f: "list_all (\<lambda>obj. list_all (\<lambda>u. length h \<le> u) (upgradeAddrs obj)) zs"
    by blast
  from f have "freshAbove (length h) (h @ zs)"
    by (simp add: freshAbove_def)
  with one cloneTypes_addrs [of "length h" h "ref_buildingTypes r"] show ?thesis
    by (simp add: jsonClone_def Let_def)
qed


lemma sameBelow_refl: "freshAbove n h \<Longrightarrow> sameBelow n h h"
  by (simp add: sameBelow_def)

lemma sameBelow_trans: "sameBelow n h h1 \<Longrightarrow> sameBelow n h1 h2 \<Longrightarrow> sameBelow n h h2"
  by (simp add: sameBelow_def)

lemma fold_sameBelow:
  assumes "\<And>x s. x \<in> set xs \<Longrightarrow> freshAbove n s \<Longrightarrow> sameBelow n s (f x s)"
    and "freshAbove n h"
  shows "sameBelow n h (fold f xs h)"
  using assms
proof (induction xs arbitrary: h)
  case Nil
  then show ?case by (simp add: sameBelow_refl)
next
  case (Cons x xs)
  from Cons.prems(1) [of x h] Cons.prems(2) have one: "sameBelow n h (f x h)"
    by simp
  then have "freshAbove n (f x h)"
    by (simp add: sameBelow_def)
  with Cons.IH [of "f x h"] Cons.prems(1) have "sameBelow n (f x h) (fold f xs (f x h))"
    by simp
  with one show ?case
    by (simp add: sameBelow_trans)
qed

lemma update_sameBelow:
  assumes n: "n \<le> a" and a: "a < length h" and f: "freshAbove n h"
    and same: "upgradeAddrs obj = upgradeAddrs (h ! a)"
  shows "sameBelow n h (h[a := obj])"
proof -
  have "list_all (\<lambda>u. n \<le> u) (upgradeAddrs (h[a := obj] ! b))"
    if "n \<le> b \<and> b < length (h[a := obj])" for b
  proof (cases "b = a")
    case True
    with a same have "upgradeAddrs (h[a := obj] ! b) = upgradeAddrs (h ! a)" by simp
    with f n a show ?thesis by (simp add: freshAbove_nth)
  next
    case False
    with that f show ?thesis by (simp add: freshAbove_nth)
  qed
  then have "freshAbove n (h[a := obj])"
    unfolding freshAbove_nth by blast
  with n show ?thesis
    by (simp add: sameBelow_def)
qed

lemma setDefinitionMandatoryFalse_sameBelow:
  assumes "n \<le> a" and "freshAbove n h"
  shows "sameBelow n h (setDefinitionMandatoryFalse h a)"
proof (cases "objectAt h a")
  case None
  with assms(2) show ?thesis
    by (simp add: setDefinitionMandatoryFalse_def sameBelow_refl)
next
  case (Some obj)
  then have a: "a < length h" and obj: "h ! a = obj"
    by (auto simp: objectAt_def split: if_splits)
  show ?thesis
  proof (cases obj)
    case (DefinitionAt c)
    have "upgradeAddrs (DefinitionAt (c\<lparr>def_mandatory := Some False\<rparr>)) = upgradeAddrs (h ! a)"
      by (simp add: obj DefinitionAt upgradeAddrs_def)
    from update_sameBelow [OF assms(1) a assms(2) this] Some DefinitionAt show ?thesis
      by (simp add: setDefinitionMandatoryFalse_def)
  next
    case (UpgradeAt u)
    with Some assms(2) show ?thesis
      by (simp add: setDefinitionMandatoryFalse_def sameBelow_refl)
  qed
qed

lemma setUpgradeMandatoryFalse_sameBelow:
  assumes "n \<le> a" and "freshAbove n h"
  shows "sameBelow n h (setUpgradeMandatoryFalse a h)"
proof (cases "objectAt h a")
  case None
  with assms(2) show ?thesis
    by (simp add: setUpgradeMandatoryFalse_def sameBelow_refl)
next
  case (Some obj)
  then have a: "a < length h" and obj: "h ! a = obj"
    by (auto simp: objectAt_def split: if_splits)
  show ?thesis
  proof (cases obj)
    case (DefinitionAt c)
    with Some assms(2) show ?thesis
      by (simp add: setUpgradeMandatoryFalse_def sameBelow_refl)
  next
    case (UpgradeAt u)
    have "upgradeAddrs (UpgradeAt (u\<lparr>up_mandatory := Some False\<rparr>)) = upgradeAddrs (h ! a)"
      by (simp add: obj UpgradeAt upgradeAddrs_def)
    from update_sameBelow [OF assms(1) a assms(2) this] Some UpgradeAt show ?thesis
      by (simp add: setUpgradeMandatoryFalse_def)
  qed
qed

lemma definitionAt_upgrades_fresh:
  assumes "n \<le> a" and "freshAbove n h" and "def_upgrades (definitionAt h a) = Some ups"
  shows "list_all (\<lambda>u. n \<le> u) ups"
proof (cases "objectAt h a")
  case None
  with assms(3) show ?thesis
    by (simp add: definitionAt_def emptyDefinition_def)
next
  case (Some obj)
  then have a: "a < length h" and obj: "h ! a = obj"
    by (auto simp: objectAt_def split: if_splits)
  show ?thesis
  proof (cases obj)
    case (DefinitionAt c)
    with Some assms(3) have "upgradeAddrs (h ! a) = ups"
      by (simp add: definitionAt_def upgradeAddrs_def obj)
    with assms(1,2) a show ?thesis
      by (auto simp: freshAbove_nth)
  next
    case (UpgradeAt u)
    with Some assms(3) show ?thesis
      by (simp add: definitionAt_def emptyDefinition_def)
  qed
qed

lemma stripBuildingInStore_sameBelow:
  assumes "n \<le> snd na" and "freshAbove n h"
  shows "sameBelow n h (stripBuildingInStore na h)"
proof -
  let ?h1 = "setDefinitionMandatoryFalse h (snd na)"
  from setDefinitionMandatoryFalse_sameBelow [OF assms] have one: "sameBelow n h ?h1" .
  then have f1: "freshAbove n ?h1"
    by (simp add: sameBelow_def)
  show ?thesis
  proof (cases "def_upgrades (definitionAt ?h1 (snd na))")
    case None
    with one show ?thesis
      by (simp add: stripBuildingInStore_def)
  next
    case (Some ups)
    from definitionAt_upgrades_fresh [OF assms(1) f1 Some]
    have "list_all (\<lambda>u. n \<le> u) ups" .
    then have "\<And>x s. x \<in> set ups \<Longrightarrow> freshAbove n s
        \<Longrightarrow> sameBelow n s (setUpgradeMandatoryFalse x s)"
      by (simp add: list_all_iff setUpgradeMandatoryFalse_sameBelow)
    from fold_sameBelow [of ups n setUpgradeMandatoryFalse, OF this f1]
    have "sameBelow n ?h1 (fold setUpgradeMandatoryFalse ups ?h1)" .
    with one Some show ?thesis
      by (simp add: stripBuildingInStore_def sameBelow_trans)
  qed
qed

lemma stripGroupInStore_sameBelow:
  assumes "list_all (\<lambda>na. n \<le> snd na) g" and "freshAbove n h"
  shows "sameBelow n h (fold stripBuildingInStore g h)"
proof (rule fold_sameBelow [OF _ assms(2)])
  fix na s
  assume "na \<in> set g" and "freshAbove n s"
  with assms(1) show "sameBelow n s (stripBuildingInStore na s)"
    by (simp add: list_all_iff stripBuildingInStore_sameBelow)
qed

lemma stripLastInStore_sameBelow:
  assumes "freshRef n (ref_buildingTypes r)" and "freshAbove n h"
  shows "sameBelow n h (stripLastInStore h r)"
proof (cases "map_of (ref_buildingTypes r) ''misc''")
  case None
  with assms(2) show ?thesis
    by (simp add: stripLastInStore_def sameBelow_refl)
next
  case (Some misc)
  then have "(''misc'', misc) \<in> set (ref_buildingTypes r)"
    by (rule map_of_SomeD)
  with assms(1) have "list_all (\<lambda>na. n \<le> snd na) misc"
    by (force simp: freshRef_def list_all_iff)
  from stripGroupInStore_sameBelow [OF this assms(2)] Some show ?thesis
    by (simp add: stripLastInStore_def)
qed

lemma stripOtherInStore_sameBelow:
  assumes "freshRef n (ref_buildingTypes r)" and "freshAbove n h"
  shows "sameBelow n h (stripOtherInStore h r)"
  unfolding stripOtherInStore_def
proof (rule fold_sameBelow [OF _ assms(2)])
  fix tg s
  assume "tg \<in> set (ref_buildingTypes r)" and fs: "freshAbove n s"
  with assms(1) have "list_all (\<lambda>na. n \<le> snd na) (snd tg)"
    by (simp add: freshRef_def list_all_iff)
  from stripGroupInStore_sameBelow [OF this fs] fs
  show "sameBelow n s (if fst tg = ''misc'' then fold stripBuildingInStore (snd tg) s else s)"
    by (simp add: sameBelow_refl)
qed

lemma extendsStore_refl: "extendsStore h h"
  by (simp add: extendsStore_def)

lemma extendsStore_trans:
  assumes "extendsStore h h1" and "extendsStore h1 h2"
  shows "extendsStore h h2"
proof -
  from assms have l: "length h \<le> length h1" "length h1 \<le> length h2"
    and t1: "take (length h) h1 = h" and t2: "take (length h1) h2 = h1"
    by (simp_all add: extendsStore_def)
  have "take (length h) h2 = take (length h) (take (length h1) h2)"
    using l by (simp add: min_def)
  with t1 t2 have "take (length h) h2 = h" by simp
  with l show ?thesis
    by (simp add: extendsStore_def)
qed

lemma prepareModifiedDefs_extends:
  "extendsStore h (fst (prepareModifiedDefs isLastBlock h defs))"
proof -
  from jsonClone_fresh [of h defs] obtain zs where
    clone: "fst (jsonClone h defs) = h @ zs"
    and f: "freshAbove (length h) (h @ zs)"
    and r: "freshRef (length h) (ref_buildingTypes (snd (jsonClone h defs)))"
    by blast
  let ?h' = "fst (prepareModifiedDefs isLastBlock h defs)"
  have "sameBelow (length h) (h @ zs) ?h'"
    using stripLastInStore_sameBelow [OF r f] stripOtherInStore_sameBelow [OF r f]
    by (simp add: prepareModifiedDefs_def Let_def clone)
  then show ?thesis
    by (simp add: sameBelow_def extendsStore_def)
qed

lemma blocksLoopInStore_extends:
  "extendsStore h (snd (blocksLoopInStore defs numBlocks sizeLimit beam mandatory idxs h st))"
proof (induction idxs arbitrary: h st)
  case Nil
  show ?case by (simp add: extendsStore_refl)
next
  case (Cons blockIdx rest)
  let ?p = "prepareModifiedDefs (int blockIdx = numBlocks - 1) h defs"
  note one = prepareModifiedDefs_extends [of h "int blockIdx = numBlocks - 1" defs]
  show ?case
  proof (cases "runBlockWith numBlocks sizeLimit beam mandatory blockIdx
      (readDefs (fst ?p) (snd ?p)) st")
    case None
    with one show ?thesis by (simp add: Let_def)
  next
    case (Some res)
    show ?thesis
    proof (cases res)
      case (Inl e)
      with Some one show ?thesis by (simp add: Let_def)
    next
      case (Inr st')
      from extendsStore_trans [OF one Cons.IH [of "fst ?p" st']] Some Inr show ?thesis
        by (simp add: Let_def)
    qed
  qed
qed

lemma optimizeMultipleBlocksInStore_extends:
  "extendsStore h (snd (optimizeMultipleBlocksInStore h defs numBlocks sizeLimit beam))"
  using blocksLoopInStore_extends [of h defs numBlocks sizeLimit beam
      "mandatoryMiscBuildingsOf (readDefs h defs)" "[0..<nat numBlocks]" initialDriverState]
  by (simp add: optimizeMultipleBlocksInStore_def Let_def extendsStore_refl
      split: option.splits sum.splits)

lemma extendsStore_objectAt:
  assumes "extendsStore h h'" and "a < length h"
  shows "objectAt h' a = objectAt h a"
proof -
  from assms have "a < length h'" and "take (length h) h' ! a = h ! a"
    by (simp_all add: extendsStore_def)
  with assms(2) show ?thesis
    by (simp add: objectAt_def)
qed

lemma extendsStore_readDefinition:
  assumes e: "extendsStore h h'" and a: "a < length h"
    and ups: "list_all (\<lambda>u. u < length h) (upgradeAddrs (DefinitionAt (definitionAt h a)))"
  shows "readDefinition h' a = readDefinition h a"
proof -
  from extendsStore_objectAt [OF e a] have d: "definitionAt h' a = definitionAt h a"
    by (simp add: definitionAt_def)
  have "map (upgradeAt h') us = map (upgradeAt h) us"
    if "def_upgrades (definitionAt h a) = Some us" for us
  proof (rule map_cong [OF refl])
    fix u
    assume "u \<in> set us"
    with ups that have "u < length h"
      by (simp add: upgradeAddrs_def list_all_iff)
    from extendsStore_objectAt [OF e this] show "upgradeAt h' u = upgradeAt h u"
      by (simp add: upgradeAt_def)
  qed
  then have "map_option (map (upgradeAt h')) (def_upgrades (definitionAt h a))
      = map_option (map (upgradeAt h)) (def_upgrades (definitionAt h a))"
    by (cases "def_upgrades (definitionAt h a)") simp_all
  then show ?thesis
    by (simp add: readDefinition_def Let_def d)
qed

lemma extendsStore_readDefs:
  assumes e: "extendsStore h h'" and c: "closedCatalog h r"
  shows "readDefs h' r = readDefs h r"
proof -
  have "map (\<lambda>na. (fst na, readDefinition h' (snd na))) (snd tg)
      = map (\<lambda>na. (fst na, readDefinition h (snd na))) (snd tg)"
    if tg: "tg \<in> set (ref_buildingTypes r)" for tg
  proof (rule map_cong [OF refl])
    fix na
    assume "na \<in> set (snd tg)"
    with c tg have "snd na < length h"
      and "list_all (\<lambda>u. u < length h)
            (upgradeAddrs (DefinitionAt (definitionAt h (snd na))))"
      by (auto simp: closedCatalog_def list_all_iff)
    from extendsStore_readDefinition [OF e this]
    show "(fst na, readDefinition h' (snd na)) = (fst na, readDefinition h (snd na))"
      by simp
  qed
  then show ?thesis
    by (simp add: readDefs_def)
qed


text \<open>
  C10. \<^verbatim>\<open>optimizeMultipleBlocks\<close> does not mutate its \<^verbatim>\<open>defs\<close> argument. For every store,
  every catalog in it, every number of blocks, size limit and beam width, whatever the
  call returns: the store after the call extends the store before it, every object that
  existed before the call is the same after it, and the catalog \<^verbatim>\<open>defs\<close> denotes after
  the call is the catalog it denoted before. The assignments to the \<^verbatim>\<open>mandatory\<close> flags
  reach only objects the copy allocated.
\<close>

theorem defs_not_mutated:
  assumes "closedCatalog h defs"
  shows "extendsStore h (snd (optimizeMultipleBlocksInStore h defs numBlocks sizeLimit beam))
       \<and> (\<forall>a < length h.
            objectAt (snd (optimizeMultipleBlocksInStore h defs numBlocks sizeLimit beam)) a
              = objectAt h a)
       \<and> readDefs (snd (optimizeMultipleBlocksInStore h defs numBlocks sizeLimit beam)) defs
           = readDefs h defs"
proof -
  note e = optimizeMultipleBlocksInStore_extends [of h defs numBlocks sizeLimit beam]
  from e extendsStore_objectAt [OF e] extendsStore_readDefs [OF e assms] show ?thesis
    by blast
qed

theorem defs_not_mutated_witness:
  "closedCatalog exampleStore exampleRef
   \<and> readDefs (snd (optimizeMultipleBlocksInStore exampleStore exampleRef 2 1 None)) exampleRef
       = readDefs exampleStore exampleRef
   \<and> length exampleStore = 3
   \<and> length (snd (optimizeMultipleBlocksInStore exampleStore exampleRef 2 1 None)) = 9
   \<and> readDefs (stripOtherInStore exampleStore exampleRef) exampleRef
       \<noteq> readDefs exampleStore exampleRef
   \<and> fst (optimizeMultipleBlocksInStore exampleStore exampleRef 2 1 None)
       = optimizeMultipleBlocks (readDefs exampleStore exampleRef) 2 1 None"
proof -
  have closed: "closedCatalog exampleStore exampleRef"
    by code_simp
  have before: "length exampleStore = 3"
    by code_simp
  have after: "length (snd (optimizeMultipleBlocksInStore exampleStore exampleRef 2 1 None)) = 9"
    by code_simp
  have inplace: "readDefs (stripOtherInStore exampleStore exampleRef) exampleRef
      \<noteq> readDefs exampleStore exampleRef"
    by code_simp
  have same: "fst (optimizeMultipleBlocksInStore exampleStore exampleRef 2 1 None)
      = optimizeMultipleBlocks (readDefs exampleStore exampleRef) 2 1 None"
    by code_simp
  from defs_not_mutated [OF closed, of 2 1 None]
  have kept: "readDefs (snd (optimizeMultipleBlocksInStore exampleStore exampleRef 2 1 None))
      exampleRef = readDefs exampleStore exampleRef"
    by blast
  show ?thesis
    by (intro conjI) (rule closed kept before after inplace same)+
qed

end
